theory Spec2Isabelle
  imports Main "HOL-Library.List_Lexorder"
begin

section \<open>Strings\<close>

text \<open>
  A Python \<open>str\<close> is a sequence of Unicode code points. A code point is a natural number,
  so that \<open>str.strip\<close> sees the whitespace Python sees and the connector literals of the
  renderer, which are not ASCII, are ordinary strings. \<open>str\<close> turns an ASCII literal into
  such a string.
\<close>

type_synonym pychar = nat
type_synonym pystr = "pychar list"

definition str :: "string \<Rightarrow> pystr" where
  "str s = map of_char s"

definition colon :: pychar where
  "colon = 58"

definition comma :: pychar where
  "comma = 44"

definition underscore :: pychar where
  "underscore = 95"

text \<open>
  \<open>str.isspace\<close> of a single code point: the characters \<open>str.strip()\<close> removes when it
  is called without an argument.
\<close>

definition is_space :: "pychar \<Rightarrow> bool" where
  "is_space c \<longleftrightarrow>
     (9 \<le> c \<and> c \<le> 13) \<or> (28 \<le> c \<and> c \<le> 32) \<or> c = 133 \<or> c = 160 \<or> c = 5760 \<or>
     (8192 \<le> c \<and> c \<le> 8202) \<or> c = 8232 \<or> c = 8233 \<or> c = 8239 \<or> c = 8287 \<or> c = 12288"

text \<open>\<open>s.strip()\<close>: the leading and the trailing whitespace removed.\<close>

definition str_strip :: "pystr \<Rightarrow> pystr" where
  "str_strip s = rev (dropWhile is_space (rev (dropWhile is_space s)))"

text \<open>\<open>s.split(sep)\<close> for a one-character separator: every occurrence splits.\<close>

fun str_split :: "pystr \<Rightarrow> pychar \<Rightarrow> pystr list" where
  "str_split [] sep = [[]]"
| "str_split (c # cs) sep =
     (if c = sep then [] # str_split cs sep
      else (case str_split cs sep of [] \<Rightarrow> [[c]] | p # ps \<Rightarrow> (c # p) # ps))"

text \<open>\<open>s.split(sep, 1)\<close>: at most one split, at the first occurrence.\<close>

fun str_split1 :: "pystr \<Rightarrow> pychar \<Rightarrow> pystr list" where
  "str_split1 [] sep = [[]]"
| "str_split1 (c # cs) sep =
     (if c = sep then [[], cs]
      else (case str_split1 cs sep of [] \<Rightarrow> [[c]] | p # ps \<Rightarrow> (c # p) # ps))"

text \<open>\<open>sep.join(ps)\<close>, used to write tokens down piece by piece.\<close>

fun str_join :: "pychar \<Rightarrow> pystr list \<Rightarrow> pystr" where
  "str_join sep [] = []"
| "str_join sep [p] = p"
| "str_join sep (p # q # ps) = p @ sep # str_join sep (q # ps)"

section \<open>Dictionaries\<close>

text \<open>
  A Python \<open>dict\<close> keeps its keys in insertion order, and \<open>items()\<close> walks them in that
  order: an association list with distinct keys. Assigning to a key that is present replaces
  its value where it stands; a new key goes to the end. Two dictionaries are equal in Python
  when they hold the same keys with the same values, whatever the order: \<open>map_of\<close> of the
  two lists agree.
\<close>

type_synonym ('k, 'v) dict = "('k \<times> 'v) list"

fun dict_set :: "('k, 'v) dict \<Rightarrow> 'k \<Rightarrow> 'v \<Rightarrow> ('k, 'v) dict" where
  "dict_set [] k v = [(k, v)]"
| "dict_set ((k', v') # d) k v =
     (if k' = k then (k, v) # d else (k', v') # dict_set d k v)"

definition dict_keys :: "('k, 'v) dict \<Rightarrow> 'k list" where
  "dict_keys d = map fst d"

type_synonym dir_structure = "(pystr, pystr list) dict"

section \<open>Errors\<close>

text \<open>
  The exceptions of the program: \<open>ValueError\<close>, and \<open>OSError\<close> by its kind, one of the
  subclasses the program can meet by name or any other by its \<open>errno\<close> (\<open>ENAMETOOLONG\<close>,
  \<open>ENOSPC\<close>, \<open>EPIPE\<close>).
\<close>

datatype oserror =
  FileExistsError | FileNotFoundError | NotADirectoryError | PermissionError | Errno nat

datatype error = ValueError | OSError oserror

section \<open>The specification parser\<close>

text \<open>
  \<open>parse_folders_with_colon\<close>: the loop over the tokens, with the dictionary built so far.
  The unpacking \<open>folder_name, sub_spec = spec.split(':', 1)\<close> raises \<open>ValueError\<close> unless
  the split has exactly two parts.
\<close>

fun parse_loop :: "pystr list \<Rightarrow> dir_structure \<Rightarrow> error + dir_structure" where
  "parse_loop [] result = Inr result"
| "parse_loop (spec # folder_specs) result =
     (if colon \<in> set spec then
        (case str_split1 spec colon of
           [folder_name, sub_spec] \<Rightarrow>
             (let sub_folders =
                    map str_strip (filter (\<lambda>s. str_strip s \<noteq> []) (str_split sub_spec comma))
              in parse_loop folder_specs (dict_set result folder_name sub_folders))
         | _ \<Rightarrow> Inl ValueError)
      else parse_loop folder_specs (dict_set result spec []))"

definition parse_folders_with_colon :: "pystr list \<Rightarrow> error + dir_structure" where
  "parse_folders_with_colon folder_specs = parse_loop folder_specs []"

text \<open>
  The parser in the words of its specification. A token with a colon names the folder by
  the text before the first colon; the text after it is cut at the commas, every piece is
  trimmed, and the pieces that are empty after trimming are dropped. A token without a colon
  names a folder with no subfolder. The entries are stored one token after the other.
\<close>

definition spec_folder_name :: "pystr \<Rightarrow> pystr" where
  "spec_folder_name tok = takeWhile (\<lambda>c. c \<noteq> colon) tok"

definition spec_sub_folders :: "pystr \<Rightarrow> pystr list" where
  "spec_sub_folders tok =
     (if colon \<in> set tok
      then filter (\<lambda>p. p \<noteq> [])
             (map str_strip (str_split (tl (dropWhile (\<lambda>c. c \<noteq> colon) tok)) comma))
      else [])"

definition spec_store :: "dir_structure \<Rightarrow> pystr \<Rightarrow> dir_structure" where
  "spec_store d tok = dict_set d (spec_folder_name tok) (spec_sub_folders tok)"

definition spec_parse :: "pystr list \<Rightarrow> dir_structure" where
  "spec_parse toks = foldl spec_store [] toks"

section \<open>Paths\<close>

text \<open>
  A \<open>pathlib\<close> path of a POSIX system, absolute as every path of the program is
  (\<open>Path.cwd()\<close> and what is joined to it): its root, \<open>/\<close> or \<open>//\<close>, and its parts below
  the root. \<open>path_div p s\<close> is \<open>p / s\<close> for a string \<open>s\<close>: the string is cut at the slashes,
  empty pieces and \<open>.\<close> are dropped, \<open>..\<close> is kept; a string that begins with a slash
  replaces the path instead of extending it, and exactly two leading slashes give the root
  \<open>//\<close>.
\<close>

definition slash :: pychar where
  "slash = 47"

definition dot :: pystr where
  "dot = [46]"

definition dotdot :: pystr where
  "dotdot = [46, 46]"

datatype path = Path (root: pystr) (parts: "pystr list")

definition parse_parts :: "pystr \<Rightarrow> pystr list" where
  "parse_parts s = filter (\<lambda>x. x \<noteq> [] \<and> x \<noteq> dot) (str_split s slash)"

definition path_div :: "path \<Rightarrow> pystr \<Rightarrow> path" where
  "path_div p s =
     (if s \<noteq> [] \<and> hd s = slash
      then Path (if length (takeWhile (\<lambda>c. c = slash) s) = 2 then [slash, slash] else [slash])
             (parse_parts s)
      else Path (root p) (parts p @ parse_parts s))"

text \<open>\<open>p.name\<close>: the last part, the empty string for a bare root.\<close>

definition path_name :: "path \<Rightarrow> pystr" where
  "path_name p = (if parts p = [] then [] else last (parts p))"

text \<open>
  Whether \<open>str(p)\<close> holds a NUL character, which no system call accepts. On the tree
  every other string is one the system can encode; a name that a real system cannot
  encode (a lone surrogate, refused with \<open>UnicodeEncodeError\<close>, a \<open>ValueError\<close>) belongs to
  the builder on any system, below.
\<close>

definition has_nul :: "path \<Rightarrow> bool" where
  "has_nul p = list_ex (\<lambda>s. 0 \<in> set s) (parts p)"

section \<open>The file system\<close>

text \<open>
  The file system is a tree: a regular file, something that is neither a file nor a
  directory (a socket, a device), or a directory with its entries by name, in the order the
  system lists them. There are no links. A location is the list of names from the top of
  the tree.
\<close>

datatype node = File | Other | Dir "(pystr \<times> node) list"

type_synonym entry = "pystr \<times> node"

fun lookup :: "node \<Rightarrow> pystr list \<Rightarrow> node option" where
  "lookup n [] = Some n"
| "lookup n (c # cs) =
     (case n of
        Dir es \<Rightarrow> (case map_of es c of Some m \<Rightarrow> lookup m cs | None \<Rightarrow> None)
      | _ \<Rightarrow> None)"

text \<open>
  The system walks the parts of a path from a location: each step needs the location
  reached so far to be a directory, \<open>..\<close> goes one level up (the top is its own parent)
  and any other part goes one level down, whether or not the name exists there.
\<close>

fun walk :: "node \<Rightarrow> pystr list \<Rightarrow> pystr list \<Rightarrow> oserror + pystr list" where
  "walk fs loc [] = Inr loc"
| "walk fs loc (c # cs) =
     (case lookup fs loc of
        Some (Dir es) \<Rightarrow> walk fs (if c = dotdot then butlast loc else loc @ [c]) cs
      | Some _ \<Rightarrow> Inl NotADirectoryError
      | None \<Rightarrow> Inl FileNotFoundError)"

definition node_at :: "node \<Rightarrow> path \<Rightarrow> node option" where
  "node_at fs p = (case walk fs [] (parts p) of Inl e \<Rightarrow> None | Inr loc \<Rightarrow> lookup fs loc)"

definition is_dir_node :: "node \<Rightarrow> bool" where
  "is_dir_node n = (case n of Dir es \<Rightarrow> True | _ \<Rightarrow> False)"

definition is_file_node :: "node \<Rightarrow> bool" where
  "is_file_node n = (case n of File \<Rightarrow> True | _ \<Rightarrow> False)"

definition dir_at :: "node \<Rightarrow> pystr list \<Rightarrow> bool" where
  "dir_at fs loc = (case lookup fs loc of Some n \<Rightarrow> is_dir_node n | None \<Rightarrow> False)"

text \<open>
  \<open>p.is_dir()\<close>: false as well when the path does not exist, and when it holds a NUL
  character (\<open>pathlib\<close> answers the \<open>ValueError\<close> of the system call with \<open>False\<close>).
\<close>

definition is_dir :: "node \<Rightarrow> path \<Rightarrow> bool" where
  "is_dir fs p =
     (if has_nul p then False
      else (case node_at fs p of Some n \<Rightarrow> is_dir_node n | None \<Rightarrow> False))"

text \<open>
  \<open>p.iterdir()\<close>, read to its end: the entries of the directory, in the system's order, or
  the exception of \<open>os.listdir\<close>.
\<close>

definition iterdir :: "node \<Rightarrow> path \<Rightarrow> error + entry list" where
  "iterdir fs p =
     (if has_nul p then Inl ValueError
      else
        (case walk fs [] (parts p) of
           Inl e \<Rightarrow> Inl (OSError e)
         | Inr loc \<Rightarrow>
             (case lookup fs loc of
                None \<Rightarrow> Inl (OSError FileNotFoundError)
              | Some (Dir es) \<Rightarrow> Inr es
              | Some _ \<Rightarrow> Inl (OSError NotADirectoryError))))"

text \<open>A new, empty directory at a location whose parent is a directory.\<close>

fun add_dir :: "node \<Rightarrow> pystr list \<Rightarrow> node" where
  "add_dir n [] = n"
| "add_dir n (c # cs) =
     (case n of
        Dir es \<Rightarrow>
          if cs = [] then Dir (es @ [(c, Dir [])])
          else Dir (map (\<lambda>(k, m). if k = c then (k, add_dir m cs) else (k, m)) es)
      | _ \<Rightarrow> n)"

text \<open>
  \<open>os.mkdir(p)\<close> on the tree. A NUL character in the path is refused with \<open>ValueError\<close>
  before the system is asked. The system then walks to the parent, which must be a
  directory, and creates the last part there unless something of that name exists; the top
  of the tree and \<open>..\<close> always exist. The tree refuses nothing else: a name too long, a
  directory that may not be written, a full disk are refusals of a real system, and belong
  to the builder on any system, below.
\<close>

definition os_mkdir :: "node \<Rightarrow> path \<Rightarrow> error + node" where
  "os_mkdir fs p =
     (if has_nul p then Inl ValueError
      else if parts p = [] then Inl (OSError FileExistsError)
      else
        (case walk fs [] (butlast (parts p)) of
           Inl e \<Rightarrow> Inl (OSError e)
         | Inr loc \<Rightarrow>
             (case lookup fs loc of
                None \<Rightarrow> Inl (OSError FileNotFoundError)
              | Some (Dir es) \<Rightarrow>
                  if last (parts p) = dotdot then Inl (OSError FileExistsError)
                  else
                    (case map_of es (last (parts p)) of
                       Some m \<Rightarrow> Inl (OSError FileExistsError)
                     | None \<Rightarrow> Inr (add_dir fs (loc @ [last (parts p)])))
              | Some _ \<Rightarrow> Inl (OSError NotADirectoryError))))"

text \<open>
  \<open>p.mkdir(exist_ok=True)\<close>: \<open>pathlib\<close> calls \<open>os.mkdir\<close>, lets \<open>FileNotFoundError\<close>
  through (there is no \<open>parents=True\<close>), and swallows any other \<open>OSError\<close> when the path is a
  directory. A \<open>ValueError\<close> is not an \<open>OSError\<close> and passes.
\<close>

definition mkdir :: "node \<Rightarrow> path \<Rightarrow> error + node" where
  "mkdir fs p =
     (case os_mkdir fs p of
        Inr fs' \<Rightarrow> Inr fs'
      | Inl ValueError \<Rightarrow> Inl ValueError
      | Inl (OSError FileNotFoundError) \<Rightarrow> Inl (OSError FileNotFoundError)
      | Inl (OSError e) \<Rightarrow> if is_dir fs p then Inr fs else Inl (OSError e))"

section \<open>Standard output and the clock\<close>

text \<open>
  What the program prints, one item for each call of \<open>print\<close>: a string, or the line
  \<open>Error occurred while creating project: {e}\<close> for an exception \<open>e\<close>, kept as the
  exception itself. Standard output is taken to accept every string.
\<close>

datatype printed = Line pystr | ErrorLine error

record datetime =
  year :: nat
  month :: nat
  day :: nat
  hour :: nat
  minute :: nat
  second :: nat

text \<open>
  \<open>strftime("%Y%m%d_%H%M%S")\<close>: the year in decimal, the other fields in two digits.
\<close>

function dec :: "nat \<Rightarrow> pystr" where
  "dec n = (if n < 10 then [48 + n] else dec (n div 10) @ [48 + n mod 10])"
  by pat_completeness auto
termination
  by (relation "measure (\<lambda>n. n)") auto

declare dec.simps [simp del]

definition pad2 :: "nat \<Rightarrow> pystr" where
  "pad2 n = (if n < 10 then 48 # dec n else dec n)"

definition strftime :: "datetime \<Rightarrow> pystr" where
  "strftime t =
     dec (year t) @ pad2 (month t) @ pad2 (day t) @ [underscore]
       @ pad2 (hour t) @ pad2 (minute t) @ pad2 (second t)"

text \<open>
  The stamp \<open>YYYYMMDD_HHMMSS\<close> in the words of the specification: four digits, then five
  times two digits, with an underscore after the date.
\<close>

definition digits2 :: "nat \<Rightarrow> pystr" where
  "digits2 n = [48 + n div 10, 48 + n mod 10]"

definition digits4 :: "nat \<Rightarrow> pystr" where
  "digits4 n = [48 + n div 1000, 48 + n div 100 mod 10, 48 + n div 10 mod 10, 48 + n mod 10]"

definition spec_stamp :: "datetime \<Rightarrow> pystr" where
  "spec_stamp t =
     digits4 (year t) @ digits2 (month t) @ digits2 (day t) @ [underscore]
       @ digits2 (hour t) @ digits2 (minute t) @ digits2 (second t)"

definition clock_time :: "datetime \<Rightarrow> bool" where
  "clock_time t \<longleftrightarrow>
     1000 \<le> year t \<and> year t \<le> 9999 \<and> month t < 100 \<and> day t < 100 \<and>
     hour t < 100 \<and> minute t < 100 \<and> second t < 100"

section \<open>The tree renderer\<close>

text \<open>
  The string literals of the renderer, by the code points the source file holds.
\<close>

definition connector_last :: pystr where
  "connector_last = [226, 8221, 8221, 226, 8221, 8364, 226, 8221, 8364, 32]"

definition connector_mid :: pystr where
  "connector_mid = [226, 8221, 339, 226, 8221, 8364, 226, 8221, 8364, 32]"

definition prefix_blank :: pystr where
  "prefix_blank = [32, 32, 32, 32]"

definition prefix_bar :: pystr where
  "prefix_bar = [226, 8221, 8218, 32, 32, 32]"

definition banner_created :: pystr where
  "banner_created = [10, 226, 339, 8230, 239, 184] @ str '' Created ML project successfully''"

definition banner_structure :: pystr where
  "banner_structure = [10, 240, 376, 8220] @ str '' Project Structure:''"

definition rule_line :: pystr where
  "rule_line = replicate 50 61"

text \<open>
  \<open>_print_directory_tree(path, prefix, is_last)\<close>, as the list of the lines it prints. The
  path is given by its name and by what it refers to. \<open>sorted\<close> orders the paths of one
  directory by their names, code point by code point.
\<close>

function print_directory_tree :: "entry \<Rightarrow> pystr \<Rightarrow> bool \<Rightarrow> pystr list" where
  "print_directory_tree path prefix is_last =
     (case snd path of
        Dir es \<Rightarrow>
          (let connector = (if is_last then connector_last else connector_mid);
               items = sort_key fst es;
               dirs = filter (\<lambda>item. is_dir_node (snd item)) items;
               files = filter (\<lambda>item. is_file_node (snd item)) items;
               new_prefix = prefix @ (if is_last then prefix_blank else prefix_bar)
           in [prefix @ connector @ fst path @ [slash]]
              @ concat (map (\<lambda>(i, subdir).
                               print_directory_tree subdir new_prefix
                                 (int i = int (length dirs) - 1 \<and> length files = 0))
                          (enumerate 0 dirs))
              @ map (\<lambda>(i, file).
                       new_prefix
                       @ (if int i = int (length files) - 1 then connector_last else connector_mid)
                       @ fst file)
                  (enumerate 0 files))
      | _ \<Rightarrow> [])"
  by pat_completeness auto
termination
proof (relation "measure (\<lambda>(path, prefix, is_last). size (snd path))", goal_cases)
  case 1
  show ?case by simp
next
  case (2 path prefix is_last es connector items dirs files new_prefix ix i subdir)
  have less: "e \<in> set xs \<Longrightarrow> size (snd e) < size (Dir xs)" for e :: entry and xs
  proof (induction xs)
    case Nil
    then show ?case by simp
  next
    case (Cons x xs)
    then show ?case by (cases x) auto
  qed
  from 2 have "(i, subdir) \<in> set (enumerate 0 (filter (\<lambda>item. is_dir_node (snd item)) (sort_key fst es)))"
    by simp
  then have "subdir \<in> set (filter (\<lambda>item. is_dir_node (snd item)) (sort_key fst es))"
    unfolding enumerate_eq_zip by (rule set_zip_rightD)
  then have "subdir \<in> set es"
    by simp
  with less [of subdir es] 2 show ?case by simp
qed

declare print_directory_tree.simps [simp del]

text \<open>
  \<open>print_project_structure(project_root)\<close> on the tree: what it has printed, and the
  exception of \<open>iterdir\<close> when the root cannot be listed. On the tree every \<open>print\<close>
  succeeds and a directory can always be listed; a \<open>print\<close> or a listing that raises
  belongs to the builder on any system, below.
\<close>

definition print_project_structure :: "node \<Rightarrow> path \<Rightarrow> error option \<times> pystr list" where
  "print_project_structure fs project_root =
     (let head = [banner_created, banner_structure, rule_line, path_name project_root @ [slash]]
      in case iterdir fs project_root of
           Inl e \<Rightarrow> (Some e, head)
         | Inr es \<Rightarrow>
             (let items = sort_key fst es
              in (None,
                  head
                  @ concat (map (\<lambda>(i, item).
                                   print_directory_tree item [] (int i = int (length items) - 1))
                              (enumerate 0 items))
                  @ [rule_line])))"

section \<open>The project builder\<close>

text \<open>\<open>MLProjectCreator.__init__\<close>: the structure the builder works with.\<close>

datatype folders = NoFolders | FolderList "pystr list" | FolderDict dir_structure

definition default_structure :: dir_structure where
  "default_structure =
     [(str ''data'', [str ''raw'', str ''output'', str ''processed'']),
      (str ''models'', [str ''checkpoints'']),
      (str ''utils'', []),
      (str ''logs'', []),
      (str ''configs'', []),
      (str ''notebooks'', [])]"

definition init :: "folders \<Rightarrow> dir_structure" where
  "init folders =
     (case folders of
        NoFolders \<Rightarrow> default_structure
      | FolderList names \<Rightarrow> foldl (\<lambda>d folder. dict_set d folder []) [] names
      | FolderDict d \<Rightarrow> d)"

text \<open>
  \<open>_create_directory_recursive(base_path, structure)\<close>: the inner loop over the subfolders
  of one folder, then the loop over the items of the structure. Each returns the exception
  that stopped it, if any, and the file system as it is then.
\<close>

fun create_sub_folders :: "path \<Rightarrow> pystr list \<Rightarrow> node \<Rightarrow> error option \<times> node" where
  "create_sub_folders folder_path [] fs = (None, fs)"
| "create_sub_folders folder_path (sub_folder # sub_folders) fs =
     (case mkdir fs (path_div folder_path sub_folder) of
        Inl e \<Rightarrow> (Some e, fs)
      | Inr fs' \<Rightarrow> create_sub_folders folder_path sub_folders fs')"

fun create_directory_recursive :: "path \<Rightarrow> dir_structure \<Rightarrow> node \<Rightarrow> error option \<times> node" where
  "create_directory_recursive base_path [] fs = (None, fs)"
| "create_directory_recursive base_path ((folder_name, sub_folders) # structure) fs =
     (case mkdir fs (path_div base_path folder_name) of
        Inl e \<Rightarrow> (Some e, fs)
      | Inr fs1 \<Rightarrow>
          (case create_sub_folders (path_div base_path folder_name) sub_folders fs1 of
             (Some e, fs2) \<Rightarrow> (Some e, fs2)
           | (None, fs2) \<Rightarrow> create_directory_recursive base_path structure fs2))"

text \<open>
  \<open>create_project(project_name)\<close>, for a creator with the given structure, in a process
  with the given working directory and clock. The state is the file system and what has
  been printed; the result is the path returned or the exception raised, with the state
  then. The handler \<open>except OSError\<close> prints its line and raises the exception again; a
  \<open>ValueError\<close> passes it by.
\<close>

type_synonym state = "node \<times> printed list"

definition handle_oserror :: "error \<Rightarrow> state \<Rightarrow> (error + path) \<times> state" where
  "handle_oserror e st =
     (case e of
        OSError k \<Rightarrow> (Inl e, (fst st, snd st @ [ErrorLine e]))
      | ValueError \<Rightarrow> (Inl e, st))"

definition create_project ::
  "dir_structure \<Rightarrow> path \<Rightarrow> datetime \<Rightarrow> pystr \<Rightarrow> state \<Rightarrow> (error + path) \<times> state" where
  "create_project structure cwd now project_name st =
     (if str_strip project_name = [] then (Inl ValueError, st)
      else
        (let timestamp = strftime now;
             full_project_name = project_name @ [underscore] @ timestamp;
             project_root = path_div cwd full_project_name
         in case mkdir (fst st) project_root of
              Inl e \<Rightarrow> handle_oserror e st
            | Inr fs1 \<Rightarrow>
                (case create_directory_recursive project_root structure fs1 of
                   (Some e, fs2) \<Rightarrow> handle_oserror e (fs2, snd st)
                 | (None, fs2) \<Rightarrow>
                     (case print_project_structure fs2 project_root of
                        (Some e, printed) \<Rightarrow>
                          handle_oserror e (fs2, snd st @ map Line printed)
                      | (None, printed) \<Rightarrow>
                          (Inr project_root, (fs2, snd st @ map Line printed))))))"

text \<open>
  The directories \<open>create_project\<close> asks for, in the order it asks: the root, then each
  folder of the structure followed by its subfolders. \<open>mkdir_seq\<close> makes the directories of
  a list one after the other and stops at the first that fails; \<open>mkdir_all\<close> gives the file
  system reached when every one succeeds.
\<close>

definition folder_paths :: "path \<Rightarrow> dir_structure \<Rightarrow> path list" where
  "folder_paths base_path structure =
     concat (map (\<lambda>(folder_name, sub_folders).
                    path_div base_path folder_name
                    # map (path_div (path_div base_path folder_name)) sub_folders)
               structure)"

definition project_paths :: "dir_structure \<Rightarrow> path \<Rightarrow> datetime \<Rightarrow> pystr \<Rightarrow> path list" where
  "project_paths structure cwd now project_name =
     path_div cwd (project_name @ [underscore] @ strftime now)
     # folder_paths (path_div cwd (project_name @ [underscore] @ strftime now)) structure"

fun mkdir_seq :: "path list \<Rightarrow> node \<Rightarrow> error option \<times> node" where
  "mkdir_seq [] fs = (None, fs)"
| "mkdir_seq (p # ps) fs =
     (case mkdir fs p of Inl e \<Rightarrow> (Some e, fs) | Inr fs' \<Rightarrow> mkdir_seq ps fs')"

fun mkdir_all :: "path list \<Rightarrow> node \<Rightarrow> node option" where
  "mkdir_all [] fs = Some fs"
| "mkdir_all (p # ps) fs =
     (case mkdir fs p of Inl e \<Rightarrow> None | Inr fs' \<Rightarrow> mkdir_all ps fs')"

text \<open>No folder or subfolder name of the structure holds a NUL character.\<close>

definition nul_free :: "dir_structure \<Rightarrow> bool" where
  "nul_free s =
     list_all (\<lambda>item. 0 \<notin> set (fst item) \<and> list_all (\<lambda>x. 0 \<notin> set x) (snd item)) s"

section \<open>The builder on any system\<close>

text \<open>
  The tree above is a system at its best: it has no permissions, no limit on names or on
  space, it can encode every name without NUL, its working directory is there, and its
  standard output takes every line. A real system may refuse any call. Here the calls
  \<open>create_project\<close> makes are taken as they come, for a state of the system of any type:
  \<^item> \<open>sys_cwd\<close> is \<open>Path.cwd()\<close>: the working directory, or the exception raised;
  \<^item> \<open>sys_mkdir\<close> is \<open>p.mkdir(exist_ok=True)\<close>: the new state, or the exception raised;
  \<^item> \<open>sys_show\<close> is the run of \<open>print_project_structure\<close>: the lines it has printed, and
    the exception that ended it, if any (of \<open>print\<close>, \<open>iterdir\<close>, \<open>is_dir\<close> or \<open>is_file\<close>);
  \<^item> \<open>sys_report\<close> is the \<open>print\<close> of the handler: the exception it raises, if any.
\<close>

record 'fs system =
  sys_cwd :: "'fs \<Rightarrow> error + path"
  sys_mkdir :: "'fs \<Rightarrow> path \<Rightarrow> error + 'fs"
  sys_show :: "'fs \<Rightarrow> path \<Rightarrow> error option \<times> pystr list"
  sys_report :: "'fs \<Rightarrow> error \<Rightarrow> error option"

fun create_sub_folders_on ::
  "'fs system \<Rightarrow> path \<Rightarrow> pystr list \<Rightarrow> 'fs \<Rightarrow> error option \<times> 'fs" where
  "create_sub_folders_on sys folder_path [] fs = (None, fs)"
| "create_sub_folders_on sys folder_path (sub_folder # sub_folders) fs =
     (case sys_mkdir sys fs (path_div folder_path sub_folder) of
        Inl e \<Rightarrow> (Some e, fs)
      | Inr fs' \<Rightarrow> create_sub_folders_on sys folder_path sub_folders fs')"

fun create_directory_recursive_on ::
  "'fs system \<Rightarrow> path \<Rightarrow> dir_structure \<Rightarrow> 'fs \<Rightarrow> error option \<times> 'fs" where
  "create_directory_recursive_on sys base_path [] fs = (None, fs)"
| "create_directory_recursive_on sys base_path ((folder_name, sub_folders) # structure) fs =
     (case sys_mkdir sys fs (path_div base_path folder_name) of
        Inl e \<Rightarrow> (Some e, fs)
      | Inr fs1 \<Rightarrow>
          (case create_sub_folders_on sys (path_div base_path folder_name) sub_folders fs1 of
             (Some e, fs2) \<Rightarrow> (Some e, fs2)
           | (None, fs2) \<Rightarrow> create_directory_recursive_on sys base_path structure fs2))"

text \<open>
  The handler \<open>except OSError as e: print(...); raise\<close>: an \<open>OSError\<close> is printed and raised
  again, unless the \<open>print\<close> raises, and then its exception is the one raised; a
  \<open>ValueError\<close> passes the handler by.
\<close>

definition handle_oserror_on ::
  "'fs system \<Rightarrow> error \<Rightarrow> 'fs \<times> printed list \<Rightarrow> (error + path) \<times> 'fs \<times> printed list" where
  "handle_oserror_on sys e st =
     (case e of
        OSError k \<Rightarrow>
          (case sys_report sys (fst st) e of
             None \<Rightarrow> (Inl e, (fst st, snd st @ [ErrorLine e]))
           | Some e' \<Rightarrow> (Inl e', st))
      | ValueError \<Rightarrow> (Inl e, st))"

text \<open>
  \<open>create_project(project_name)\<close> on a system. The name is tested, the time stamp and the
  working directory are taken, and only then does the \<open>try\<close> block begin: an exception of
  \<open>Path.cwd()\<close> does not meet the handler.
\<close>

definition create_project_on ::
  "'fs system \<Rightarrow> dir_structure \<Rightarrow> datetime \<Rightarrow> pystr \<Rightarrow> 'fs \<times> printed list
     \<Rightarrow> (error + path) \<times> 'fs \<times> printed list" where
  "create_project_on sys structure now project_name st =
     (if str_strip project_name = [] then (Inl ValueError, st)
      else
        (let timestamp = strftime now;
             full_project_name = project_name @ [underscore] @ timestamp
         in case sys_cwd sys (fst st) of
              Inl e \<Rightarrow> (Inl e, st)
            | Inr cwd \<Rightarrow>
                (let project_root = path_div cwd full_project_name
                 in case sys_mkdir sys (fst st) project_root of
                      Inl e \<Rightarrow> handle_oserror_on sys e st
                    | Inr fs1 \<Rightarrow>
                        (case create_directory_recursive_on sys project_root structure fs1 of
                           (Some e, fs2) \<Rightarrow> handle_oserror_on sys e (fs2, snd st)
                         | (None, fs2) \<Rightarrow>
                             (case sys_show sys fs2 project_root of
                                (Some e, printed) \<Rightarrow>
                                  handle_oserror_on sys e (fs2, snd st @ map Line printed)
                              | (None, printed) \<Rightarrow>
                                  (Inr project_root, (fs2, snd st @ map Line printed)))))))"

text \<open>
  \<open>mkdir_seq_on\<close> makes the directories of a list one after the other and stops at the
  first call that raises; \<open>mkdir_all_on\<close> gives the state reached when every call succeeds.
\<close>

fun mkdir_seq_on :: "'fs system \<Rightarrow> path list \<Rightarrow> 'fs \<Rightarrow> error option \<times> 'fs" where
  "mkdir_seq_on sys [] fs = (None, fs)"
| "mkdir_seq_on sys (p # ps) fs =
     (case sys_mkdir sys fs p of Inl e \<Rightarrow> (Some e, fs) | Inr fs' \<Rightarrow> mkdir_seq_on sys ps fs')"

fun mkdir_all_on :: "'fs system \<Rightarrow> path list \<Rightarrow> 'fs \<Rightarrow> 'fs option" where
  "mkdir_all_on sys [] fs = Some fs"
| "mkdir_all_on sys (p # ps) fs =
     (case sys_mkdir sys fs p of Inl e \<Rightarrow> None | Inr fs' \<Rightarrow> mkdir_all_on sys ps fs')"

text \<open>
  Four systems over the tree, each in a process with a given working directory:
  \<^item> \<open>tree_system\<close>, the tree itself, where \<open>create_project_on\<close> is \<open>create_project\<close>;
  \<^item> \<open>closed_stdout_system\<close>, where the standard output has been closed and every \<open>print\<close>
    raises \<open>ValueError\<close> (I/O operation on closed file);
  \<^item> \<open>unlistable_system\<close>, where the directories are made without the permission to read
    them (a umask of 0400): \<open>print_project_structure\<close> prints its heading and \<open>iterdir\<close> then
    raises \<open>PermissionError\<close>;
  \<^item> \<open>removed_cwd_system\<close>, where the working directory has been removed and \<open>Path.cwd()\<close>
    raises \<open>FileNotFoundError\<close>.
\<close>

definition tree_system :: "path \<Rightarrow> node system" where
  "tree_system cwd =
     \<lparr>sys_cwd = (\<lambda>fs. Inr cwd), sys_mkdir = mkdir, sys_show = print_project_structure,
      sys_report = (\<lambda>fs e. None)\<rparr>"

definition closed_stdout_system :: "path \<Rightarrow> node system" where
  "closed_stdout_system cwd =
     \<lparr>sys_cwd = (\<lambda>fs. Inr cwd), sys_mkdir = mkdir,
      sys_show = (\<lambda>fs p. (Some ValueError, [])),
      sys_report = (\<lambda>fs e. Some ValueError)\<rparr>"

definition unlistable_system :: "path \<Rightarrow> node system" where
  "unlistable_system cwd =
     \<lparr>sys_cwd = (\<lambda>fs. Inr cwd), sys_mkdir = mkdir,
      sys_show = (\<lambda>fs p. (Some (OSError PermissionError),
                            [banner_created, banner_structure, rule_line, path_name p @ [slash]])),
      sys_report = (\<lambda>fs e. None)\<rparr>"

definition removed_cwd_system :: "node system" where
  "removed_cwd_system =
     \<lparr>sys_cwd = (\<lambda>fs. Inl (OSError FileNotFoundError)), sys_mkdir = mkdir,
      sys_show = print_project_structure, sys_report = (\<lambda>fs e. None)\<rparr>"

section \<open>An example process\<close>

text \<open>
  A file system that holds the directory \<open>/home\<close> and nothing else, that directory as the
  working directory, and the clock at 2024-01-02 03:04:05.
\<close>

definition example_fs :: node where
  "example_fs = Dir [(str ''home'', Dir [])]"

definition example_cwd :: path where
  "example_cwd = Path [slash] [str ''home'']"

definition example_now :: datetime where
  "example_now = \<lparr>year = 2024, month = 1, day = 2, hour = 3, minute = 4, second = 5\<rparr>"

text \<open>
  The project \<open>x\<close> built there at that time with the structure \<open>{"data": ["raw"]}\<close>: its root
  and the file system afterwards.
\<close>

definition example_root :: path where
  "example_root = Path [slash] [str ''home'', str ''x_20240102_030405'']"

definition example_built :: node where
  "example_built =
     Dir [(str ''home'',
           Dir [(str ''x_20240102_030405'', Dir [(str ''data'', Dir [(str ''raw'', Dir [])])])])]"

section \<open>Facts about the string operations\<close>

lemma str_split1_colon:
  "sep \<in> set s \<Longrightarrow>
   str_split1 s sep = [takeWhile (\<lambda>c. c \<noteq> sep) s, tl (dropWhile (\<lambda>c. c \<noteq> sep) s)]"
  by (induction s) auto

lemma takeWhile_no_sep: "sep \<notin> set s \<Longrightarrow> takeWhile (\<lambda>c. c \<noteq> sep) s = s"
  by (induction s) auto

lemma strip_filter_commute:
  "map str_strip (filter (\<lambda>s. str_strip s \<noteq> []) ps) = filter (\<lambda>p. p \<noteq> []) (map str_strip ps)"
  by (induction ps) auto

lemma parse_loop_step:
  "parse_loop (tok # toks) d = parse_loop toks (spec_store d tok)"
proof (cases "colon \<in> set tok")
  case True
  then show ?thesis
    by (simp add: str_split1_colon spec_store_def spec_folder_name_def spec_sub_folders_def
        strip_filter_commute)
next
  case False
  then show ?thesis
    by (simp add: spec_store_def spec_folder_name_def spec_sub_folders_def takeWhile_no_sep)
qed

lemma parse_loop_spec: "parse_loop toks d = Inr (foldl spec_store d toks)"
proof (induction toks arbitrary: d)
  case Nil
  show ?case by simp
next
  case (Cons tok toks)
  show ?case
    unfolding parse_loop_step by (simp add: Cons.IH)
qed

lemma parse_is_spec_parse: "parse_folders_with_colon toks = Inr (spec_parse toks)"
  by (simp add: parse_folders_with_colon_def spec_parse_def parse_loop_spec)

section \<open>Facts about dictionaries and the parser\<close>

lemma map_of_dict_set: "map_of (dict_set d k v) = (map_of d)(k \<mapsto> v)"
  by (induction d k v rule: dict_set.induct) (auto simp: fun_eq_iff)

lemma keys_dict_set: "set (dict_keys (dict_set d k v)) = insert k (set (dict_keys d))"
  by (induction d k v rule: dict_set.induct) (auto simp: dict_keys_def)

lemma distinct_dict_set:
  "distinct (dict_keys d) \<Longrightarrow> distinct (dict_keys (dict_set d k v))"
proof (induction d k v rule: dict_set.induct)
  case (1 k v)
  show ?case by (simp add: dict_keys_def)
next
  case (2 k' v' d k v)
  have "set (map fst (dict_set d k v)) = insert k (set (map fst d))"
    using keys_dict_set [of d k v] by (simp add: dict_keys_def)
  with 2 show ?case by (auto simp: dict_keys_def)
qed

lemma keys_foldl_store:
  "set (dict_keys (foldl spec_store d toks)) = set (dict_keys d) \<union> spec_folder_name ` set toks"
  by (induction toks arbitrary: d) (auto simp: spec_store_def keys_dict_set)

lemma distinct_foldl_store:
  "distinct (dict_keys d) \<Longrightarrow> distinct (dict_keys (foldl spec_store d toks))"
  by (induction toks arbitrary: d) (auto simp: spec_store_def distinct_dict_set)

lemma map_of_foldl_store_other:
  "\<forall>t \<in> set toks. spec_folder_name t \<noteq> n \<Longrightarrow>
   map_of (foldl spec_store d toks) n = map_of d n"
  by (induction toks arbitrary: d) (auto simp: spec_store_def map_of_dict_set)

lemma distinct_keys_single:
  "distinct (dict_keys d) \<Longrightarrow> map_of d n = Some v \<Longrightarrow> filter (\<lambda>e. fst e = n) d = [(n, v)]"
proof (induction d)
  case Nil
  then show ?case by simp
next
  case (Cons e d)
  obtain k w where e: "e = (k, w)" by (cases e)
  show ?case
  proof (cases "k = n")
    case True
    with Cons.prems e have "n \<notin> fst ` set d" and "w = v"
      by (auto simp: dict_keys_def)
    then have "filter (\<lambda>e. fst e = n) d = []"
      by (auto simp: filter_empty_conv)
    with True e \<open>w = v\<close> show ?thesis by simp
  next
    case False
    with Cons e show ?thesis by (auto simp: dict_keys_def)
  qed
qed

lemma folder_name_empty_iff: "spec_folder_name tok = [] \<longleftrightarrow> tok = [] \<or> hd tok = colon"
  by (cases tok) (auto simp: spec_folder_name_def)

lemma dropWhile_first_sep:
  "sep \<notin> set name \<Longrightarrow> dropWhile (\<lambda>c. c \<noteq> sep) (name @ sep # rest) = sep # rest"
  by (induction name) auto

lemma takeWhile_first_sep:
  "sep \<notin> set name \<Longrightarrow> takeWhile (\<lambda>c. c \<noteq> sep) (name @ sep # rest) = name"
  by (induction name) auto

lemma str_split_nonempty: "str_split s sep \<noteq> []"
  by (induction s) (auto split: list.splits)

lemma str_split_no_sep: "sep \<notin> set p \<Longrightarrow> str_split p sep = [p]"
  by (induction p) auto

lemma str_split_append:
  "sep \<notin> set p \<Longrightarrow> str_split (p @ sep # s) sep = p # str_split s sep"
  by (induction p) auto

lemma str_split_join:
  "ps \<noteq> [] \<Longrightarrow> \<forall>p \<in> set ps. sep \<notin> set p \<Longrightarrow> str_split (str_join sep ps) sep = ps"
  by (induction sep ps rule: str_join.induct) (auto simp: str_split_no_sep str_split_append)

lemma str_join_split: "str_join sep (str_split s sep) = s"
proof (induction s)
  case Nil
  show ?case by simp
next
  case (Cons c s)
  show ?case
  proof (cases "c = sep")
    case True
    obtain p ps where "str_split s sep = p # ps"
      using str_split_nonempty [of s sep] by (cases "str_split s sep") auto
    with True Cons show ?thesis by auto
  next
    case False
    obtain p ps where ps: "str_split s sep = p # ps"
      using str_split_nonempty [of s sep] by (cases "str_split s sep") auto
    with False Cons show ?thesis by (cases ps) auto
  qed
qed

lemma str_split_pieces: "p \<in> set (str_split s sep) \<Longrightarrow> sep \<notin> set p"
  by (induction s arbitrary: p) (auto split: if_splits list.splits)

lemma space_not_comma: "is_space c \<Longrightarrow> c \<noteq> comma"
  by (auto simp: is_space_def comma_def)

lemma dropWhile_all: "\<forall>c \<in> set s. P c \<Longrightarrow> dropWhile P s = []"
  by (induction s) auto

lemma strip_all_space: "\<forall>c \<in> set s. is_space c \<Longrightarrow> str_strip s = []"
  by (simp add: str_strip_def dropWhile_all)

lemma strip_pad:
  assumes "\<forall>c \<in> set l. is_space c" and "\<forall>c \<in> set r. is_space c"
  shows "str_strip (l @ p @ r) = str_strip p"
proof (cases "\<forall>c \<in> set p. is_space c")
  case True
  with assms have "\<forall>c \<in> set (l @ p @ r). is_space c"
    by auto
  then have "str_strip (l @ p @ r) = []"
    by (rule strip_all_space)
  moreover have "str_strip p = []"
    using True by (rule strip_all_space)
  ultimately show ?thesis by simp
next
  case False
  have "dropWhile is_space (l @ p @ r) = dropWhile is_space (p @ r)"
    using assms(1) by (simp add: dropWhile_append2)
  also have "\<dots> = dropWhile is_space p @ r"
    using False by (auto simp: dropWhile_append1)
  finally have "str_strip (l @ p @ r)
                = rev (dropWhile is_space (rev r @ rev (dropWhile is_space p)))"
    by (simp add: str_strip_def)
  also have "\<dots> = rev (dropWhile is_space (rev (dropWhile is_space p)))"
    using assms(2) by (simp add: dropWhile_append)
  finally show ?thesis by (simp add: str_strip_def)
qed

lemma strip_decomp:
  "\<exists>l r. s = l @ str_strip s @ r \<and> (\<forall>c \<in> set l. is_space c) \<and> (\<forall>c \<in> set r. is_space c)"
proof -
  define a where "a = dropWhile is_space s"
  define b where "b = dropWhile is_space (rev a)"
  define t where "t = takeWhile is_space (rev a)"
  have st: "str_strip s = rev b"
    by (simp add: str_strip_def a_def b_def)
  have 1: "s = takeWhile is_space s @ a"
    by (simp add: a_def)
  have "rev a = t @ b"
    by (simp add: b_def t_def)
  then have "rev (rev a) = rev (t @ b)"
    by (rule arg_cong)
  then have 2: "a = rev b @ rev t"
    by simp
  have 3: "\<forall>c \<in> set (takeWhile is_space s). is_space c"
    by (auto dest: set_takeWhileD)
  have 4: "\<forall>c \<in> set (rev t). is_space c"
    by (auto simp: t_def dest: set_takeWhileD)
  have "s = takeWhile is_space s @ str_strip s @ rev t"
    using 1 2 st by simp
  with 3 4 show ?thesis by blast
qed

lemma strip_edges:
  assumes "str_strip s \<noteq> []"
  shows "\<not> is_space (hd (str_strip s)) \<and> \<not> is_space (last (str_strip s))"
proof -
  define a where "a = dropWhile is_space s"
  define b where "b = dropWhile is_space (rev a)"
  have st: "str_strip s = rev b"
    by (simp add: str_strip_def a_def b_def)
  with assms have b: "b \<noteq> []" by simp
  then have "\<not> is_space (hd b)"
    unfolding b_def by (rule hd_dropWhile)
  then have last: "\<not> is_space (last (str_strip s))"
    using b st by (simp add: last_rev)
  have "rev a = takeWhile is_space (rev a) @ b"
    by (simp add: b_def)
  then have "rev (rev a) = rev (takeWhile is_space (rev a) @ b)"
    by (rule arg_cong)
  then have a: "a = rev b @ rev (takeWhile is_space (rev a))"
    by simp
  with b have "a \<noteq> []" by auto
  then have "\<not> is_space (hd a)"
    unfolding a_def by (rule hd_dropWhile)
  moreover have "hd a = hd (rev b)"
    using a b by (metis hd_append2 rev_is_Nil_conv)
  ultimately show ?thesis using last st by simp
qed

section \<open>Facts about the file system\<close>

lemma dir_at_iff: "dir_at fs loc \<longleftrightarrow> (\<exists>es. lookup fs loc = Some (Dir es))"
  by (auto simp: dir_at_def is_dir_node_def split: option.splits node.splits)

lemma lookup_append:
  "lookup n (l @ [c]) =
   (case lookup n l of Some (Dir es) \<Rightarrow> map_of es c | _ \<Rightarrow> None)"
proof (induction l arbitrary: n)
  case Nil
  show ?case by (cases n) (auto split: option.splits)
next
  case (Cons a l)
  show ?case by (cases n) (auto simp: Cons.IH split: option.splits)
qed

lemma map_of_map_entry:
  "map_of (map (\<lambda>(k, m). if k = c then (k, f m) else (k, m)) es) a
   = map_option (\<lambda>m. if a = c then f m else m) (map_of es a)"
  by (induction es) auto

lemma add_dir_keeps_dirs: "dir_at fs l \<Longrightarrow> dir_at (add_dir fs l2) l"
proof (induction l2 arbitrary: fs l)
  case Nil
  then show ?case by simp
next
  case (Cons c cs)
  from Cons.prems obtain ds where ds: "lookup fs l = Some (Dir ds)"
    by (auto simp: dir_at_iff)
  show ?case
  proof (cases fs)
    case File
    with Cons.prems show ?thesis by simp
  next
    case Other
    with Cons.prems show ?thesis by simp
  next
    case (Dir es)
    show ?thesis
    proof (cases l)
      case Nil
      with Dir show ?thesis by (simp add: dir_at_iff)
    next
      case (Cons a l')
      with ds Dir obtain m where m: "map_of es a = Some m" "lookup m l' = Some (Dir ds)"
        by (auto split: option.splits)
      then have "dir_at m l'"
        by (auto simp: dir_at_iff)
      then have "dir_at (add_dir m cs) l'"
        by (rule Cons.IH)
      with m \<open>dir_at m l'\<close> Dir Cons show ?thesis
        by (auto simp: dir_at_iff map_of_map_entry)
    qed
  qed
qed

lemma add_dir_creates:
  "lookup fs l = Some (Dir es) \<Longrightarrow> map_of es c = None \<Longrightarrow>
   lookup (add_dir fs (l @ [c])) (l @ [c]) = Some (Dir [])"
proof (induction l arbitrary: fs)
  case Nil
  then show ?case by (simp add: map_add_def split: option.splits)
next
  case (Cons a l)
  from Cons.prems(1) obtain es0 m where fs: "fs = Dir es0" and m: "map_of es0 a = Some m"
    and lm: "lookup m l = Some (Dir es)"
    by (cases fs) (auto split: option.splits)
  have "lookup (add_dir m (l @ [c])) (l @ [c]) = Some (Dir [])"
    using lm Cons.prems(2) by (rule Cons.IH)
  with fs m show ?case
    by (simp add: map_of_map_entry)
qed

lemma walk_append:
  "walk fs loc (ps @ qs) = (case walk fs loc ps of Inl e \<Rightarrow> Inl e | Inr l \<Rightarrow> walk fs l qs)"
  by (induction ps arbitrary: loc) (auto split: option.splits node.splits)

lemma walk_step_Inr:
  "walk fs loc (c # cs) = Inr l \<Longrightarrow> dir_at fs loc"
  by (auto simp: dir_at_iff split: option.splits node.splits)

lemma walk_step_dir:
  "dir_at fs loc \<Longrightarrow> walk fs loc (c # cs) = walk fs (if c = dotdot then butlast loc else loc @ [c]) cs"
  by (auto simp: dir_at_iff)

lemma walk_mono:
  assumes "\<And>l. dir_at fs l \<Longrightarrow> dir_at fs' l"
  shows "walk fs loc ps = Inr l' \<Longrightarrow> walk fs' loc ps = Inr l'"
proof (induction ps arbitrary: loc)
  case Nil
  then show ?case by simp
next
  case (Cons c cs)
  have d: "dir_at fs loc"
    using Cons.prems by (rule walk_step_Inr)
  then have d': "dir_at fs' loc"
    by (rule assms)
  from Cons.prems d have "walk fs (if c = dotdot then butlast loc else loc @ [c]) cs = Inr l'"
    by (simp only: walk_step_dir)
  then have "walk fs' (if c = dotdot then butlast loc else loc @ [c]) cs = Inr l'"
    by (rule Cons.IH)
  with d' show ?case by (simp only: walk_step_dir)
qed

lemma is_dir_iff:
  "is_dir fs p \<longleftrightarrow> \<not> has_nul p \<and> (\<exists>loc. walk fs [] (parts p) = Inr loc \<and> dir_at fs loc)"
  by (auto simp: is_dir_def node_at_def dir_at_def split: sum.splits option.splits)

lemma is_dir_mono:
  assumes "\<And>l. dir_at fs l \<Longrightarrow> dir_at fs' l" and "is_dir fs q"
  shows "is_dir fs' q"
proof -
  from assms(2) obtain loc where w: "walk fs [] (parts q) = Inr loc" and d: "dir_at fs loc"
    and n: "\<not> has_nul q"
    by (auto simp: is_dir_iff)
  from assms(1) w have "walk fs' [] (parts q) = Inr loc"
    by (rule walk_mono)
  moreover from d have "dir_at fs' loc"
    by (rule assms(1))
  ultimately show ?thesis using n by (auto simp: is_dir_iff)
qed

lemma dir_at_butlast: "dir_at fs loc \<Longrightarrow> dir_at fs (butlast loc)"
proof (cases loc rule: rev_cases)
  case Nil
  assume "dir_at fs loc"
  with Nil show ?thesis by simp
next
  case (snoc l c)
  assume "dir_at fs loc"
  with snoc show ?thesis
    by (auto simp: dir_at_iff lookup_append split: option.splits node.splits)
qed

lemma os_mkdir_existing:
  assumes "is_dir fs p"
  shows "os_mkdir fs p = Inl (OSError FileExistsError)"
proof (cases "parts p = []")
  case True
  with assms show ?thesis by (simp add: os_mkdir_def is_dir_iff)
next
  case False
  from assms have nul: "\<not> has_nul p"
    by (simp add: is_dir_iff)
  from False obtain ps c where pc: "parts p = ps @ [c]"
    by (cases "parts p" rule: rev_cases) auto
  from assms obtain loc where w: "walk fs [] (ps @ [c]) = Inr loc" and d: "dir_at fs loc"
    by (auto simp: is_dir_iff pc)
  from w obtain l1 where w1: "walk fs [] ps = Inr l1" and w2: "walk fs l1 [c] = Inr loc"
    by (auto simp: walk_append split: sum.splits)
  from w2 have d1: "dir_at fs l1"
    by (rule walk_step_Inr)
  then obtain es where es: "lookup fs l1 = Some (Dir es)"
    by (auto simp: dir_at_iff)
  show ?thesis
  proof (cases "c = dotdot")
    case True
    with nul False pc w1 es show ?thesis
      by (simp add: os_mkdir_def)
  next
    case ndd: False
    with w2 d1 have "loc = l1 @ [c]"
      by (simp add: walk_step_dir del: walk.simps(2))
    with d es obtain m where "map_of es c = Some m"
      by (auto simp: dir_at_iff lookup_append)
    with nul False pc w1 es ndd show ?thesis
      by (simp add: os_mkdir_def)
  qed
qed

lemma mkdir_existing: "is_dir fs p \<Longrightarrow> mkdir fs p = Inr fs"
  by (simp add: mkdir_def os_mkdir_existing)

lemma os_mkdir_value_error: "os_mkdir fs p = Inl ValueError \<longleftrightarrow> has_nul p"
  by (auto simp: os_mkdir_def split: sum.splits option.splits node.splits if_splits)

lemma mkdir_value_error: "mkdir fs p = Inl ValueError \<longleftrightarrow> has_nul p"
proof (cases "os_mkdir fs p")
  case (Inr fs')
  with os_mkdir_value_error [of fs p] show ?thesis by (simp add: mkdir_def)
next
  case (Inl e)
  show ?thesis
  proof (cases e)
    case ValueError
    with Inl os_mkdir_value_error [of fs p] show ?thesis by (simp add: mkdir_def)
  next
    case (OSError k)
    with Inl os_mkdir_value_error [of fs p] show ?thesis
      by (cases k) (simp_all add: mkdir_def)
  qed
qed

lemma os_mkdir_created:
  assumes "os_mkdir fs p = Inr fs'"
  shows "is_dir fs' p \<and> (\<forall>l. dir_at fs l \<longrightarrow> dir_at fs' l)"
proof -
  from assms have ne: "parts p \<noteq> []" and nul: "\<not> has_nul p"
    by (auto simp: os_mkdir_def split: if_splits)
  then obtain ps c where pc: "parts p = ps @ [c]"
    by (cases "parts p" rule: rev_cases) auto
  from assms pc obtain l1 es where w1: "walk fs [] ps = Inr l1"
    and es: "lookup fs l1 = Some (Dir es)" and ndd: "c \<noteq> dotdot"
    and free: "map_of es c = None" and fs': "fs' = add_dir fs (l1 @ [c])"
    by (auto simp: os_mkdir_def split: if_splits sum.splits option.splits node.splits)
  have keep: "dir_at fs l \<Longrightarrow> dir_at fs' l" for l
    unfolding fs' by (rule add_dir_keeps_dirs)
  from keep w1 have w1': "walk fs' [] ps = Inr l1"
    by (rule walk_mono)
  have "dir_at fs l1"
    using es by (auto simp: dir_at_iff)
  then have "dir_at fs' l1"
    by (rule keep)
  with w1' ndd have "walk fs' [] (ps @ [c]) = Inr (l1 @ [c])"
    by (simp add: walk_append walk_step_dir del: walk.simps(2))
  moreover have "dir_at fs' (l1 @ [c])"
    unfolding fs' using add_dir_creates [OF es free] by (simp add: dir_at_iff)
  ultimately have "is_dir fs' p"
    using nul by (auto simp: is_dir_iff pc)
  with keep show ?thesis by blast
qed

lemma mkdir_cases:
  assumes "mkdir fs p = Inr fs'"
  shows "os_mkdir fs p = Inr fs' \<or> (fs' = fs \<and> is_dir fs p)"
proof (cases "os_mkdir fs p")
  case (Inr x)
  with assms show ?thesis by (simp add: mkdir_def)
next
  case (Inl e)
  show ?thesis
  proof (cases e)
    case ValueError
    with Inl assms show ?thesis by (simp add: mkdir_def)
  next
    case (OSError k)
    with Inl assms show ?thesis
      by (cases k) (auto simp: mkdir_def split: if_splits)
  qed
qed

lemma mkdir_created:
  assumes "mkdir fs p = Inr fs'"
  shows "is_dir fs' p" and "is_dir fs q \<Longrightarrow> is_dir fs' q"
proof -
  from mkdir_cases [OF assms] show "is_dir fs' p"
    using os_mkdir_created [of fs p fs'] by auto
  assume q: "is_dir fs q"
  from mkdir_cases [OF assms] show "is_dir fs' q"
  proof
    assume "os_mkdir fs p = Inr fs'"
    then have "\<And>l. dir_at fs l \<Longrightarrow> dir_at fs' l"
      using os_mkdir_created [of fs p fs'] by blast
    then show ?thesis using q by (rule is_dir_mono)
  next
    assume "fs' = fs \<and> is_dir fs p"
    with q show ?thesis by simp
  qed
qed

lemma mkdir_no_nul: "mkdir fs p = Inr fs' \<Longrightarrow> \<not> has_nul p"
  using mkdir_value_error [of fs p] by auto

section \<open>Facts about the builder\<close>

lemma mkdir_seq_append:
  "mkdir_seq (ps @ qs) fs =
   (case mkdir_seq ps fs of (Some e, fs') \<Rightarrow> (Some e, fs') | (None, fs') \<Rightarrow> mkdir_seq qs fs')"
  by (induction ps arbitrary: fs) (auto split: sum.splits)

lemma create_sub_folders_seq:
  "create_sub_folders folder_path subs fs = mkdir_seq (map (path_div folder_path) subs) fs"
  by (induction subs arbitrary: fs) (auto split: sum.splits)

lemma create_directory_recursive_seq:
  "create_directory_recursive base_path s fs = mkdir_seq (folder_paths base_path s) fs"
proof (induction s arbitrary: fs)
  case Nil
  show ?case by (simp add: folder_paths_def)
next
  case (Cons item s)
  obtain folder_name sub_folders where item: "item = (folder_name, sub_folders)"
    by (cases item)
  have fp: "folder_paths base_path (item # s)
            = (path_div base_path folder_name
               # map (path_div (path_div base_path folder_name)) sub_folders)
              @ folder_paths base_path s"
    by (simp add: folder_paths_def item)
  show ?case
    unfolding fp mkdir_seq_append
    by (auto simp: item create_sub_folders_seq Cons.IH split: sum.splits option.splits prod.splits)
qed

lemma mkdir_seq_None: "mkdir_seq ps fs = (None, fs') \<longleftrightarrow> mkdir_all ps fs = Some fs'"
  by (induction ps arbitrary: fs) (auto split: sum.splits)

lemma mkdir_seq_Some:
  "mkdir_seq ps fs = (Some e, fs') \<longleftrightarrow>
   (\<exists>done failing rest. ps = done @ failing # rest \<and> mkdir_all done fs = Some fs' \<and>
      mkdir fs' failing = Inl e)"
proof (induction ps arbitrary: fs)
  case Nil
  show ?case by simp
next
  case (Cons p ps)
  show ?case
  proof (cases "mkdir fs p")
    case (Inl e')
    have "(\<exists>done failing rest. p # ps = done @ failing # rest \<and> mkdir_all done fs = Some fs' \<and>
            mkdir fs' failing = Inl e) \<longleftrightarrow> (e' = e \<and> fs' = fs)"
    proof
      assume "\<exists>done failing rest. p # ps = done @ failing # rest \<and> mkdir_all done fs = Some fs' \<and>
            mkdir fs' failing = Inl e"
      then obtain dn failing rest where d: "p # ps = dn @ failing # rest"
        and a: "mkdir_all dn fs = Some fs'" and f: "mkdir fs' failing = Inl e"
        by blast
      show "e' = e \<and> fs' = fs"
      proof (cases dn)
        case Nil
        with d a f Inl show ?thesis by simp
      next
        case (Cons x xs)
        with d a Inl show ?thesis by simp
      qed
    next
      assume "e' = e \<and> fs' = fs"
      with Inl have "p # ps = [] @ p # ps \<and> mkdir_all [] fs = Some fs' \<and> mkdir fs' p = Inl e"
        by simp
      then show "\<exists>done failing rest. p # ps = done @ failing # rest \<and>
          mkdir_all done fs = Some fs' \<and> mkdir fs' failing = Inl e"
        by blast
    qed
    with Inl show ?thesis by auto
  next
    case (Inr fs1)
    have "(\<exists>done failing rest. p # ps = done @ failing # rest \<and> mkdir_all done fs = Some fs' \<and>
            mkdir fs' failing = Inl e)
          \<longleftrightarrow> (\<exists>done failing rest. ps = done @ failing # rest \<and> mkdir_all done fs1 = Some fs' \<and>
            mkdir fs' failing = Inl e)"
    proof
      assume "\<exists>done failing rest. p # ps = done @ failing # rest \<and> mkdir_all done fs = Some fs' \<and>
            mkdir fs' failing = Inl e"
      then obtain dn failing rest where d: "p # ps = dn @ failing # rest"
        and a: "mkdir_all dn fs = Some fs'" and f: "mkdir fs' failing = Inl e"
        by blast
      show "\<exists>done failing rest. ps = done @ failing # rest \<and> mkdir_all done fs1 = Some fs' \<and>
            mkdir fs' failing = Inl e"
      proof (cases dn)
        case Nil
        with d a f Inr show ?thesis by simp
      next
        case (Cons x xs)
        with d a Inr have "ps = xs @ failing # rest \<and> mkdir_all xs fs1 = Some fs'"
          by simp
        with f show ?thesis by blast
      qed
    next
      assume "\<exists>done failing rest. ps = done @ failing # rest \<and> mkdir_all done fs1 = Some fs' \<and>
            mkdir fs' failing = Inl e"
      then obtain dn failing rest where d: "ps = dn @ failing # rest"
        and a: "mkdir_all dn fs1 = Some fs'" and f: "mkdir fs' failing = Inl e"
        by blast
      with Inr have "p # ps = (p # dn) @ failing # rest \<and> mkdir_all (p # dn) fs = Some fs'"
        by simp
      with f show "\<exists>done failing rest. p # ps = done @ failing # rest \<and>
          mkdir_all done fs = Some fs' \<and> mkdir fs' failing = Inl e"
        by blast
    qed
    with Inr Cons.IH [of fs1] show ?thesis by simp
  qed
qed

lemma mkdir_all_dirs:
  "mkdir_all ps fs = Some fs' \<Longrightarrow>
   (\<forall>q. is_dir fs q \<longrightarrow> is_dir fs' q) \<and> (\<forall>p \<in> set ps. is_dir fs' p)"
proof (induction ps arbitrary: fs)
  case Nil
  then show ?case by simp
next
  case (Cons p ps)
  from Cons.prems obtain fs1 where m: "mkdir fs p = Inr fs1" and r: "mkdir_all ps fs1 = Some fs'"
    by (auto split: sum.splits)
  from Cons.IH [OF r] have ih1: "\<And>q. is_dir fs1 q \<Longrightarrow> is_dir fs' q"
    and ih2: "\<forall>p \<in> set ps. is_dir fs' p"
    by auto
  have "is_dir fs' p"
    using mkdir_created(1) [OF m] by (rule ih1)
  moreover have "is_dir fs' q" if "is_dir fs q" for q
    using mkdir_created(2) [OF m that] by (rule ih1)
  ultimately show ?case using ih2 by auto
qed

lemma mkdir_all_existing:
  "\<forall>p \<in> set ps. is_dir fs p \<Longrightarrow> mkdir_all ps fs = Some fs"
  by (induction ps) (auto simp: mkdir_existing)

lemma iterdir_dir: "is_dir fs p \<Longrightarrow> \<exists>es. iterdir fs p = Inr es"
  by (auto simp: is_dir_iff iterdir_def dir_at_iff)

lemma print_project_structure_dir:
  "is_dir fs p \<Longrightarrow> fst (print_project_structure fs p) = None"
  using iterdir_dir [of fs p] by (auto simp: print_project_structure_def Let_def)

lemma create_project_blank:
  "str_strip project_name = [] \<Longrightarrow>
   create_project structure cwd now project_name st = (Inl ValueError, st)"
  by (simp add: create_project_def)

lemma create_project_seq:
  assumes "str_strip project_name \<noteq> []"
  shows "create_project s cwd now project_name st =
     (case mkdir_seq (project_paths s cwd now project_name) (fst st) of
        (Some e, fs') \<Rightarrow> handle_oserror e (fs', snd st)
      | (None, fs') \<Rightarrow>
          (Inr (path_div cwd (project_name @ [underscore] @ strftime now)),
           (fs', snd st @ map Line (snd (print_project_structure fs'
                   (path_div cwd (project_name @ [underscore] @ strftime now)))))))"
proof -
  define project_root where "project_root = path_div cwd (project_name @ [underscore] @ strftime now)"
  have root: "path_div cwd (project_name @ underscore # strftime now) = project_root"
    by (simp add: project_root_def)
  have paths: "project_paths s cwd now project_name
               = project_root # folder_paths project_root s"
    by (simp add: project_paths_def project_root_def)
  have unfold: "create_project s cwd now project_name st =
     (case mkdir (fst st) project_root of
        Inl e \<Rightarrow> handle_oserror e st
      | Inr fs1 \<Rightarrow>
          (case mkdir_seq (folder_paths project_root s) fs1 of
             (Some e, fs2) \<Rightarrow> handle_oserror e (fs2, snd st)
           | (None, fs2) \<Rightarrow>
               (case print_project_structure fs2 project_root of
                  (Some e, printed) \<Rightarrow> handle_oserror e (fs2, snd st @ map Line printed)
                | (None, printed) \<Rightarrow> (Inr project_root, (fs2, snd st @ map Line printed)))))"
    using assms
    unfolding create_project_def Let_def project_root_def [symmetric]
      create_directory_recursive_seq
    by simp
  show ?thesis
  proof (cases "mkdir (fst st) project_root")
    case (Inl e)
    then show ?thesis
      unfolding unfold paths by (simp add: root)
  next
    case (Inr fs1)
    obtain r fs2 where seq: "mkdir_seq (folder_paths project_root s) fs1 = (r, fs2)"
      by (cases "mkdir_seq (folder_paths project_root s) fs1")
    show ?thesis
    proof (cases r)
      case (Some e)
      with Inr seq show ?thesis
        unfolding unfold paths by (simp add: root)
    next
      case None
      with seq have "mkdir_all (folder_paths project_root s) fs1 = Some fs2"
        by (simp add: mkdir_seq_None)
      then have "\<And>q. is_dir fs1 q \<Longrightarrow> is_dir fs2 q"
        using mkdir_all_dirs by blast
      then have "is_dir fs2 project_root"
        using mkdir_created(1) [OF Inr] by blast
      then have "fst (print_project_structure fs2 project_root) = None"
        by (rule print_project_structure_dir)
      then obtain printed where pr: "print_project_structure fs2 project_root = (None, printed)"
        by (cases "print_project_structure fs2 project_root") auto
      with Inr seq None show ?thesis
        unfolding unfold paths by (simp add: root)
    qed
  qed
qed

section \<open>Facts about the clock and the renderer\<close>

lemma dec_digit: "n < 10 \<Longrightarrow> dec n = [48 + n]"
  by (simp add: dec.simps)

lemma dec_two: "10 \<le> n \<Longrightarrow> n < 100 \<Longrightarrow> dec n = digits2 n"
  by (subst dec.simps) (simp add: dec_digit digits2_def)

lemma pad2_digits2: "n < 100 \<Longrightarrow> pad2 n = digits2 n"
  by (cases "n < 10") (simp_all add: pad2_def dec_digit dec_two digits2_def)

lemma dec_three: "100 \<le> n \<Longrightarrow> n < 1000 \<Longrightarrow> dec n = [48 + n div 100, 48 + n div 10 mod 10, 48 + n mod 10]"
proof -
  assume a: "100 \<le> n" "n < 1000"
  then have "10 \<le> n div 10" "n div 10 < 100"
    by auto
  then have "dec (n div 10) = digits2 (n div 10)"
    by (rule dec_two)
  moreover have "n div 10 div 10 = n div 100"
    by (simp add: div_mult2_eq [symmetric])
  ultimately show ?thesis
    using a by (subst dec.simps) (simp add: digits2_def)
qed

lemma dec_four: "1000 \<le> n \<Longrightarrow> n \<le> 9999 \<Longrightarrow> dec n = digits4 n"
proof -
  assume a: "1000 \<le> n" "n \<le> 9999"
  then have "100 \<le> n div 10" "n div 10 < 1000"
    by auto
  then have "dec (n div 10) = [48 + n div 10 div 100, 48 + n div 10 div 10 mod 10, 48 + n div 10 mod 10]"
    by (rule dec_three)
  moreover have "n div 10 div 100 = n div 1000" "n div 10 div 10 = n div 100"
    by (simp_all add: div_mult2_eq [symmetric])
  ultimately show ?thesis
    using a by (subst dec.simps) (simp add: digits4_def)
qed

lemma strftime_spec_stamp: "clock_time t \<Longrightarrow> strftime t = spec_stamp t"
  by (simp add: clock_time_def strftime_def spec_stamp_def dec_four pad2_digits2)

lemma dec_chars: "c \<in> set (dec n) \<Longrightarrow> 48 \<le> c"
proof (induction n arbitrary: c rule: dec.induct)
  case (1 n)
  show ?case
  proof (cases "n < 10")
    case True
    with "1.prems" show ?thesis by (simp add: dec_digit)
  next
    case False
    from "1.prems" have "c \<in> set (dec (n div 10)) \<or> c = 48 + n mod 10"
      by (subst (asm) dec.simps) (use False in auto)
    with "1.IH" False show ?thesis by auto
  qed
qed

lemma strftime_no_nul: "0 \<notin> set (strftime t)"
proof
  assume "0 \<in> set (strftime t)"
  then have "\<exists>n. 0 \<in> set (dec n)"
    by (auto simp: strftime_def pad2_def underscore_def split: if_splits)
  then show False
    using dec_chars by fastforce
qed

lemma print_not_dir: "\<not> is_dir_node n \<Longrightarrow> print_directory_tree (name, n) prefix is_last = []"
  by (cases n) (simp_all add: print_directory_tree.simps is_dir_node_def)

lemma concat_map_filter:
  "(\<And>x. x \<in> set xs \<Longrightarrow> \<not> P x \<Longrightarrow> f x = []) \<Longrightarrow>
   concat (map f xs) = concat (map f (filter P xs))"
  by (induction xs) auto

section \<open>Facts about NUL characters and the handler\<close>

lemma str_split_subset: "p \<in> set (str_split s sep) \<Longrightarrow> set p \<subseteq> set s"
proof (induction s arbitrary: p)
  case Nil
  then show ?case by simp
next
  case (Cons c s)
  show ?case
  proof (cases "c = sep")
    case True
    with Cons show ?thesis by auto
  next
    case False
    obtain q qs where q: "str_split s sep = q # qs"
      using str_split_nonempty [of s sep] by (cases "str_split s sep") auto
    with False Cons.prems have "p = c # q \<or> p \<in> set qs"
      by auto
    then show ?thesis
    proof
      assume "p = c # q"
      moreover have "set q \<subseteq> set s"
        using Cons.IH [of q] q by simp
      ultimately show ?thesis by auto
    next
      assume "p \<in> set qs"
      then have "set p \<subseteq> set s"
        using Cons.IH [of p] q by simp
      then show ?thesis by auto
    qed
  qed
qed

lemma parse_parts_nul: "x \<in> set (parse_parts s) \<Longrightarrow> 0 \<in> set x \<Longrightarrow> 0 \<in> set s"
  using str_split_subset [of x s slash] by (auto simp: parse_parts_def)

lemma has_nul_path_div: "has_nul (path_div p s) \<Longrightarrow> has_nul p \<or> 0 \<in> set s"
  by (auto simp: has_nul_def path_div_def list_ex_iff dest: parse_parts_nul split: if_splits)

lemma project_paths_nul_free:
  assumes "\<not> has_nul cwd" and "0 \<notin> set project_name" and "nul_free s"
    and "q \<in> set (project_paths s cwd now project_name)"
  shows "\<not> has_nul q"
proof -
  define project_root where "project_root = path_div cwd (project_name @ [underscore] @ strftime now)"
  have "0 \<notin> set (project_name @ [underscore] @ strftime now)"
    using assms(2) strftime_no_nul [of now] by (simp add: underscore_def)
  with assms(1) have root: "\<not> has_nul project_root"
    unfolding project_root_def using has_nul_path_div by blast
  from assms(4) have "q = project_root \<or> q \<in> set (folder_paths project_root s)"
    by (simp add: project_paths_def project_root_def)
  then show ?thesis
  proof
    assume "q = project_root"
    with root show ?thesis by simp
  next
    assume "q \<in> set (folder_paths project_root s)"
    then obtain k subs where item: "(k, subs) \<in> set s"
      and q: "q = path_div project_root k \<or> q \<in> path_div (path_div project_root k) ` set subs"
      by (auto simp: folder_paths_def)
    from item assms(3) have k: "0 \<notin> set k" and subs: "\<forall>x \<in> set subs. 0 \<notin> set x"
      by (auto simp: nul_free_def list_all_iff)
    from root k have folder: "\<not> has_nul (path_div project_root k)"
      using has_nul_path_div by blast
    from q show ?thesis
    proof
      assume "q = path_div project_root k"
      with folder show ?thesis by simp
    next
      assume "q \<in> path_div (path_div project_root k) ` set subs"
      then obtain x where "x \<in> set subs" and "q = path_div (path_div project_root k) x"
        by auto
      with folder subs show ?thesis
        using has_nul_path_div by blast
    qed
  qed
qed

lemma fst_handle_oserror: "fst (handle_oserror e st) = Inl e"
  by (cases e) (simp_all add: handle_oserror_def)

lemma handle_oserror_OSError:
  "handle_oserror (OSError k) st = (Inl (OSError k), (fst st, snd st @ [ErrorLine (OSError k)]))"
  by (simp add: handle_oserror_def)

lemma create_project_Inr:
  assumes "create_project s cwd now project_name st = (Inr p, st')"
  shows "str_strip project_name \<noteq> []"
    and "p = path_div cwd (project_name @ [underscore] @ strftime now)"
    and "mkdir_all (project_paths s cwd now project_name) (fst st) = Some (fst st')"
proof -
  show ne: "str_strip project_name \<noteq> []"
    using assms by (auto simp: create_project_blank)
  obtain r fs' where seq: "mkdir_seq (project_paths s cwd now project_name) (fst st) = (r, fs')"
    by (cases "mkdir_seq (project_paths s cwd now project_name) (fst st)")
  have none: "r = None"
  proof (cases r)
    case None
    then show ?thesis .
  next
    case (Some e)
    with seq assms have "fst (handle_oserror e (fs', snd st)) = Inr p"
      by (simp add: create_project_seq [OF ne])
    then show ?thesis by (simp add: fst_handle_oserror)
  qed
  with seq assms show "p = path_div cwd (project_name @ [underscore] @ strftime now)"
    by (simp add: create_project_seq [OF ne])
  from none seq assms have "fs' = fst st'"
    by (auto simp: create_project_seq [OF ne])
  with none seq show "mkdir_all (project_paths s cwd now project_name) (fst st) = Some (fst st')"
    by (simp add: mkdir_seq_None)
qed

section \<open>Facts about the builder on any system\<close>

lemma mkdir_seq_on_append:
  "mkdir_seq_on sys (ps @ qs) fs =
   (case mkdir_seq_on sys ps fs of
      (Some e, fs') \<Rightarrow> (Some e, fs')
    | (None, fs') \<Rightarrow> mkdir_seq_on sys qs fs')"
  by (induction ps arbitrary: fs) (auto split: sum.splits)

lemma create_sub_folders_on_seq:
  "create_sub_folders_on sys folder_path subs fs
   = mkdir_seq_on sys (map (path_div folder_path) subs) fs"
  by (induction subs arbitrary: fs) (auto split: sum.splits)

lemma create_directory_recursive_on_seq:
  "create_directory_recursive_on sys base_path s fs = mkdir_seq_on sys (folder_paths base_path s) fs"
proof (induction s arbitrary: fs)
  case Nil
  show ?case by (simp add: folder_paths_def)
next
  case (Cons item s)
  obtain folder_name sub_folders where item: "item = (folder_name, sub_folders)"
    by (cases item)
  have fp: "folder_paths base_path (item # s)
            = (path_div base_path folder_name
               # map (path_div (path_div base_path folder_name)) sub_folders)
              @ folder_paths base_path s"
    by (simp add: folder_paths_def item)
  show ?case
    unfolding fp mkdir_seq_on_append
    by (auto simp: item create_sub_folders_on_seq Cons.IH
        split: sum.splits option.splits prod.splits)
qed

lemma mkdir_seq_on_None:
  "mkdir_seq_on sys ps fs = (None, fs') \<longleftrightarrow> mkdir_all_on sys ps fs = Some fs'"
  by (induction ps arbitrary: fs) (auto split: sum.splits)

lemma mkdir_seq_on_failing:
  "ps = done @ failing # rest \<Longrightarrow> mkdir_all_on sys done fs = Some fs' \<Longrightarrow>
   sys_mkdir sys fs' failing = Inl e \<Longrightarrow> mkdir_seq_on sys ps fs = (Some e, fs')"
proof (induction "done" arbitrary: ps fs)
  case Nil
  then show ?case by simp
next
  case (Cons p dn)
  from Cons.prems(2) obtain fs1 where m: "sys_mkdir sys fs p = Inr fs1"
    and a: "mkdir_all_on sys dn fs1 = Some fs'"
    by (auto split: sum.splits)
  have "mkdir_seq_on sys (dn @ failing # rest) fs1 = (Some e, fs')"
    using a Cons.prems(3) by (intro Cons.IH) simp_all
  with m Cons.prems(1) show ?case by simp
qed



lemma create_project_on_no_cwd:
  "str_strip project_name \<noteq> [] \<Longrightarrow> sys_cwd sys (fst st) = Inl e \<Longrightarrow>
   create_project_on sys s now project_name st = (Inl e, st)"
  by (simp add: create_project_on_def)

lemma create_project_on_seq:
  assumes "str_strip project_name \<noteq> []" and "sys_cwd sys (fst st) = Inr cwd"
  shows "create_project_on sys s now project_name st =
     (case mkdir_seq_on sys (project_paths s cwd now project_name) (fst st) of
        (Some e, fs') \<Rightarrow> handle_oserror_on sys e (fs', snd st)
      | (None, fs') \<Rightarrow>
          (case sys_show sys fs' (path_div cwd (project_name @ [underscore] @ strftime now)) of
             (Some e, printed) \<Rightarrow> handle_oserror_on sys e (fs', snd st @ map Line printed)
           | (None, printed) \<Rightarrow>
               (Inr (path_div cwd (project_name @ [underscore] @ strftime now)),
                (fs', snd st @ map Line printed))))"
proof -
  define project_root where "project_root = path_div cwd (project_name @ [underscore] @ strftime now)"
  have paths: "project_paths s cwd now project_name
               = project_root # folder_paths project_root s"
    by (simp add: project_paths_def project_root_def)
  have unfold: "create_project_on sys s now project_name st =
     (case sys_mkdir sys (fst st) project_root of
        Inl e \<Rightarrow> handle_oserror_on sys e st
      | Inr fs1 \<Rightarrow>
          (case mkdir_seq_on sys (folder_paths project_root s) fs1 of
             (Some e, fs2) \<Rightarrow> handle_oserror_on sys e (fs2, snd st)
           | (None, fs2) \<Rightarrow>
               (case sys_show sys fs2 project_root of
                  (Some e, printed) \<Rightarrow> handle_oserror_on sys e (fs2, snd st @ map Line printed)
                | (None, printed) \<Rightarrow> (Inr project_root, (fs2, snd st @ map Line printed)))))"
    using assms
    unfolding create_project_on_def Let_def project_root_def create_directory_recursive_on_seq
    by simp
  show ?thesis
    unfolding unfold paths project_root_def [symmetric]
    by (cases "sys_mkdir sys (fst st) project_root") (auto split: prod.splits option.splits)
qed


lemma handle_oserror_on_OSError:
  "handle_oserror_on sys (OSError k) st =
   (case sys_report sys (fst st) (OSError k) of
      None \<Rightarrow> (Inl (OSError k), (fst st, snd st @ [ErrorLine (OSError k)]))
    | Some e' \<Rightarrow> (Inl e', st))"
  by (simp add: handle_oserror_on_def)





section \<open>The specification parser: its keys, its tokens, padding and duplicates\<close>

text \<open>
  C3 (as amended). Every key of the mapping the parser returns is the text of some input
  token before its first colon, the whole token when it has no colon, taken as it is. So
  every key is a non-empty string provided no input token is empty or begins with a colon.
\<close>

theorem parse_keys:
  assumes "parse_folders_with_colon toks = Inr d"
  shows "(\<forall>k \<in> set (dict_keys d). \<exists>tok \<in> set toks. k = takeWhile (\<lambda>c. c \<noteq> colon) tok) \<and>
         ((\<forall>tok \<in> set toks. tok \<noteq> [] \<and> hd tok \<noteq> colon) \<longrightarrow> (\<forall>k \<in> set (dict_keys d). k \<noteq> []))"
proof -
  have d: "d = spec_parse toks"
    using assms by (simp add: parse_is_spec_parse)
  have keys: "set (dict_keys d) = spec_folder_name ` set toks"
    using keys_foldl_store [of "[]" toks] by (simp add: d spec_parse_def dict_keys_def)
  have 1: "\<forall>k \<in> set (dict_keys d). \<exists>tok \<in> set toks. k = takeWhile (\<lambda>c. c \<noteq> colon) tok"
    unfolding keys by (auto simp: spec_folder_name_def)
  have 2: "(\<forall>tok \<in> set toks. tok \<noteq> [] \<and> hd tok \<noteq> colon) \<longrightarrow> (\<forall>k \<in> set (dict_keys d). k \<noteq> [])"
    unfolding keys using folder_name_empty_iff by auto
  from 1 2 show ?thesis by blast
qed

text \<open>The theorem at the token list \<open>["data:raw"]\<close>.\<close>

theorem parse_keys_witness:
  "parse_folders_with_colon [str ''data:raw''] = Inr [(str ''data'', [str ''raw''])] \<and>
   str ''data:raw'' \<noteq> [] \<and> hd (str ''data:raw'') \<noteq> colon \<and>
   list_all (\<lambda>k. k \<noteq> []) (dict_keys [(str ''data'', [str ''raw''])])"
proof -
  have p: "parse_folders_with_colon [str ''data:raw''] = Inr [(str ''data'', [str ''raw''])]"
    by (simp add: parse_folders_with_colon_def str_def colon_def comma_def str_strip_def
        is_space_def)
  have h: "\<forall>tok \<in> set [str ''data:raw'']. tok \<noteq> [] \<and> hd tok \<noteq> colon"
    by (simp add: str_def colon_def)
  from parse_keys [OF p] h p show ?thesis
    by (simp add: list_all_iff)
qed

text \<open>
  Without the proviso the statement fails: the token \<open>":a"\<close> is stored under the empty
  key.
\<close>

theorem parse_empty_key: "parse_folders_with_colon [str '':a''] = Inr [([], [str ''a''])]"
  by (simp add: parse_folders_with_colon_def str_def colon_def comma_def str_strip_def
      is_space_def)

text \<open>
  C4. The parser computes what its specification says, token by token: a token with a colon
  is cut at its first colon only, the left part is the folder name, the right part is cut at
  the commas, every piece is trimmed and the pieces that are empty after trimming are
  dropped; a token without a colon maps to the empty subfolder list. In particular
  \<open>["data:raw,processed", "scripts"]\<close> parses to
  \<open>{"data": ["raw", "processed"], "scripts": []}\<close>.
\<close>

theorem parse_refines_spec:
  "parse_folders_with_colon toks = Inr (spec_parse toks) \<and>
   (colon \<notin> set name \<longrightarrow>
      spec_folder_name (name @ colon # rest) = name \<and>
      spec_sub_folders (name @ colon # rest)
        = filter (\<lambda>p. p \<noteq> []) (map str_strip (str_split rest comma))) \<and>
   (colon \<notin> set tok \<longrightarrow> spec_folder_name tok = tok \<and> spec_sub_folders tok = []) \<and>
   parse_folders_with_colon [str ''data:raw,processed'', str ''scripts'']
     = Inr [(str ''data'', [str ''raw'', str ''processed'']), (str ''scripts'', [])]"
proof -
  have 1: "parse_folders_with_colon toks = Inr (spec_parse toks)"
    by (rule parse_is_spec_parse)
  have 2: "colon \<notin> set name \<longrightarrow>
      spec_folder_name (name @ colon # rest) = name \<and>
      spec_sub_folders (name @ colon # rest)
        = filter (\<lambda>p. p \<noteq> []) (map str_strip (str_split rest comma))"
    by (simp add: spec_folder_name_def spec_sub_folders_def takeWhile_first_sep
        dropWhile_first_sep)
  have 3: "colon \<notin> set tok \<longrightarrow> spec_folder_name tok = tok \<and> spec_sub_folders tok = []"
    by (simp add: spec_folder_name_def spec_sub_folders_def takeWhile_no_sep)
  have 4: "parse_folders_with_colon [str ''data:raw,processed'', str ''scripts'']
     = Inr [(str ''data'', [str ''raw'', str ''processed'']), (str ''scripts'', [])]"
    by (simp add: parse_folders_with_colon_def str_def colon_def comma_def str_strip_def
        is_space_def)
  from 1 2 3 4 show ?thesis by blast
qed

text \<open>
  The theorem at the tokens \<open>"data:raw, ,x:y"\<close> (a second colon stays in the subfolder
  portion) and \<open>"scripts"\<close>.
\<close>

theorem parse_refines_spec_witness:
  "colon \<notin> set (str ''data'') \<and> colon \<notin> set (str ''scripts'') \<and>
   parse_folders_with_colon [str ''data:raw, ,x:y'', str ''scripts'']
     = Inr (spec_parse [str ''data:raw, ,x:y'', str ''scripts'']) \<and>
   spec_folder_name (str ''data'' @ colon # str ''raw, ,x:y'') = str ''data'' \<and>
   spec_sub_folders (str ''data'' @ colon # str ''raw, ,x:y'') = [str ''raw'', str ''x:y''] \<and>
   spec_folder_name (str ''scripts'') = str ''scripts'' \<and>
   spec_sub_folders (str ''scripts'') = []"
proof -
  have 1: "colon \<notin> set (str ''data'')"
    by (simp add: str_def colon_def)
  have 2: "colon \<notin> set (str ''scripts'')"
    by (simp add: str_def colon_def)
  have 3: "filter (\<lambda>p. p \<noteq> []) (map str_strip (str_split (str ''raw, ,x:y'') comma))
           = [str ''raw'', str ''x:y'']"
    by (simp add: str_def comma_def str_strip_def is_space_def)
  from parse_refines_spec [of "[str ''data:raw, ,x:y'', str ''scripts'']" "str ''data''"
      "str ''raw, ,x:y''" "str ''scripts''"] 1 2 3
  show ?thesis by simp
qed

text \<open>
  C5. Whitespace around the pieces of the subfolder portion does not change the result:
  a token \<open>name:l1 p1 r1,...,ln pn rn\<close>, where the \<open>l\<close> and \<open>r\<close> are whitespace, parses
  as \<open>name:p1,...,pn\<close> does, wherever it stands in the token list; and
  \<open>["data: raw , processed "]\<close> parses as \<open>["data:raw,processed"]\<close> does.
\<close>

theorem parse_ignores_padding:
  assumes "colon \<notin> set name" and "ps \<noteq> []"
    and "length ls = length ps" and "length rs = length ps"
    and "\<forall>p \<in> set ps. comma \<notin> set p"
    and "\<forall>w \<in> set ls \<union> set rs. \<forall>c \<in> set w. is_space c"
  shows "parse_folders_with_colon
           (pre @ [name @ colon # str_join comma (map (\<lambda>(l, p, r). l @ p @ r) (zip ls (zip ps rs)))] @ post)
         = parse_folders_with_colon (pre @ [name @ colon # str_join comma ps] @ post)
       \<and> parse_folders_with_colon [str ''data: raw , processed '']
         = parse_folders_with_colon [str ''data:raw,processed'']"
proof -
  define qs where "qs = map (\<lambda>(l, p, r). l @ p @ r) (zip ls (zip ps rs))"
  have len: "length qs = length ps"
    using assms(3,4) by (simp add: qs_def)
  have nth: "qs ! i = ls ! i @ ps ! i @ rs ! i" if "i < length ps" for i
    using that assms(3,4) by (simp add: qs_def)
  have qs_ne: "qs \<noteq> []"
    using len assms(2) by auto
  have strip_eq: "map str_strip qs = map str_strip ps"
  proof (rule nth_equalityI)
    show "length (map str_strip qs) = length (map str_strip ps)"
      using len by simp
  next
    fix i assume "i < length (map str_strip qs)"
    then have i: "i < length ps" using len by simp
    have "\<forall>c \<in> set (ls ! i). is_space c" "\<forall>c \<in> set (rs ! i). is_space c"
      using assms(3,4,6) i by (auto simp: nth_mem)
    then have "str_strip (ls ! i @ ps ! i @ rs ! i) = str_strip (ps ! i)"
      by (rule strip_pad)
    then show "map str_strip qs ! i = map str_strip ps ! i"
      using i len nth by simp
  qed
  have qs_comma: "\<forall>q \<in> set qs. comma \<notin> set q"
  proof
    fix q assume "q \<in> set qs"
    then obtain i where i: "i < length ps" and q: "q = qs ! i"
      using len by (auto simp: in_set_conv_nth)
    have "\<forall>c \<in> set (ls ! i). is_space c" "\<forall>c \<in> set (rs ! i). is_space c"
      using assms(3,4,6) i by (auto simp: nth_mem)
    moreover have "comma \<notin> set (ps ! i)"
      using assms(5) i by (auto simp: nth_mem)
    ultimately show "comma \<notin> set q"
      using nth [OF i] q space_not_comma by auto
  qed
  have subs: "spec_sub_folders (name @ colon # str_join comma qs)
              = spec_sub_folders (name @ colon # str_join comma ps)"
    using assms(1,2,5) qs_ne qs_comma strip_eq
    by (simp add: spec_sub_folders_def dropWhile_first_sep str_split_join)
  have nm: "spec_folder_name (name @ colon # str_join comma qs)
            = spec_folder_name (name @ colon # str_join comma ps)"
    using assms(1) by (simp add: spec_folder_name_def takeWhile_first_sep)
  have st: "spec_store d (name @ colon # str_join comma qs)
            = spec_store d (name @ colon # str_join comma ps)" for d
    by (simp add: spec_store_def subs nm)
  have "spec_parse (pre @ [name @ colon # str_join comma qs] @ post)
        = spec_parse (pre @ [name @ colon # str_join comma ps] @ post)"
    by (simp add: spec_parse_def st)
  then have 1: "parse_folders_with_colon (pre @ [name @ colon # str_join comma qs] @ post)
         = parse_folders_with_colon (pre @ [name @ colon # str_join comma ps] @ post)"
    by (simp add: parse_is_spec_parse)
  have 2: "parse_folders_with_colon [str ''data: raw , processed '']
         = parse_folders_with_colon [str ''data:raw,processed'']"
    by (simp add: parse_folders_with_colon_def str_def colon_def comma_def str_strip_def
        is_space_def)
  from 1 2 show ?thesis unfolding qs_def by blast
qed

text \<open>The theorem at the token \<open>"data: raw , processed "\<close>, built from its pieces.\<close>

theorem parse_ignores_padding_witness:
  "colon \<notin> set (str ''data'') \<and>
   comma \<notin> set (str ''raw'') \<and> comma \<notin> set (str ''processed'') \<and>
   list_all is_space (str '' '') \<and>
   str ''data'' @ colon # str_join comma
       (map (\<lambda>(l, p, r). l @ p @ r)
          (zip [str '' '', str '' ''] (zip [str ''raw'', str ''processed''] [str '' '', str '' ''])))
     = str ''data: raw , processed '' \<and>
   str ''data'' @ colon # str_join comma [str ''raw'', str ''processed''] = str ''data:raw,processed'' \<and>
   parse_folders_with_colon [str ''logs'', str ''data: raw , processed '', str ''models'']
     = parse_folders_with_colon [str ''logs'', str ''data:raw,processed'', str ''models'']"
proof -
  have 1: "colon \<notin> set (str ''data'')"
    by (simp add: str_def colon_def)
  have 2: "[str ''raw'', str ''processed''] \<noteq> []"
    by simp
  have 3: "length [str '' '', str '' ''] = length [str ''raw'', str ''processed'']"
    by simp
  have 5: "\<forall>p \<in> set [str ''raw'', str ''processed'']. comma \<notin> set p"
    by (simp add: str_def comma_def)
  have 6: "\<forall>w \<in> set [str '' '', str '' ''] \<union> set [str '' '', str '' '']. \<forall>c \<in> set w. is_space c"
    by (simp add: str_def is_space_def)
  have a: "str ''data'' @ colon # str_join comma
       (map (\<lambda>(l, p, r). l @ p @ r)
          (zip [str '' '', str '' ''] (zip [str ''raw'', str ''processed''] [str '' '', str '' ''])))
     = str ''data: raw , processed ''"
    by (simp add: str_def colon_def comma_def)
  have b: "str ''data'' @ colon # str_join comma [str ''raw'', str ''processed'']
           = str ''data:raw,processed''"
    by (simp add: str_def colon_def comma_def)
  have sp: "list_all is_space (str '' '')"
    by (simp add: str_def is_space_def)
  have "parse_folders_with_colon ([str ''logs''] @ [str ''data: raw , processed ''] @ [str ''models''])
     = parse_folders_with_colon ([str ''logs''] @ [str ''data:raw,processed''] @ [str ''models''])"
    using parse_ignores_padding [OF 1 2 3 3 5 6, of "[str ''logs'']" "[str ''models'']"]
    unfolding a b by blast
  with 1 5 sp a b show ?thesis by simp
qed

text \<open>
  C6. When two tokens have the same folder name and no token after the second has it, the
  result maps the name to the subfolder list of the second token, holds one entry only for
  the name, and the subfolder list of the first token, when it differs, is not stored under
  the name.
\<close>

theorem parse_last_write_wins:
  assumes "parse_folders_with_colon (pre @ [t1] @ mid @ [t2] @ post) = Inr d"
    and "spec_folder_name t1 = n" and "spec_folder_name t2 = n"
    and "\<forall>t \<in> set post. spec_folder_name t \<noteq> n"
  shows "map_of d n = Some (spec_sub_folders t2) \<and>
         filter (\<lambda>e. fst e = n) d = [(n, spec_sub_folders t2)] \<and>
         (spec_sub_folders t1 \<noteq> spec_sub_folders t2 \<longrightarrow> (n, spec_sub_folders t1) \<notin> set d)"
proof -
  have d: "d = spec_parse (pre @ [t1] @ mid @ [t2] @ post)"
    using assms(1) by (simp add: parse_is_spec_parse)
  define d0 where "d0 = foldl spec_store [] (pre @ [t1] @ mid)"
  have d': "d = foldl spec_store (spec_store d0 t2) post"
    by (simp add: d spec_parse_def d0_def)
  have "map_of d n = map_of (spec_store d0 t2) n"
    unfolding d' using assms(4) by (rule map_of_foldl_store_other)
  then have 1: "map_of d n = Some (spec_sub_folders t2)"
    using assms(3) by (simp add: spec_store_def map_of_dict_set)
  have dist: "distinct (dict_keys d)"
    unfolding d spec_parse_def by (rule distinct_foldl_store) (simp add: dict_keys_def)
  from dist 1 have 2: "filter (\<lambda>e. fst e = n) d = [(n, spec_sub_folders t2)]"
    by (rule distinct_keys_single)
  have 3: "spec_sub_folders t1 \<noteq> spec_sub_folders t2 \<longrightarrow> (n, spec_sub_folders t1) \<notin> set d"
  proof
    assume ne: "spec_sub_folders t1 \<noteq> spec_sub_folders t2"
    show "(n, spec_sub_folders t1) \<notin> set d"
    proof
      assume "(n, spec_sub_folders t1) \<in> set d"
      then have "(n, spec_sub_folders t1) \<in> set (filter (\<lambda>e. fst e = n) d)"
        by simp
      with 2 ne show False by simp
    qed
  qed
  from 1 2 3 show ?thesis by blast
qed

text \<open>
  The theorem at \<open>["data:raw", "logs", "data:clean", "models"]\<close>.
\<close>

theorem parse_last_write_wins_witness:
  "parse_folders_with_colon ([] @ [str ''data:raw''] @ [str ''logs''] @ [str ''data:clean''] @ [str ''models''])
     = Inr [(str ''data'', [str ''clean'']), (str ''logs'', []), (str ''models'', [])] \<and>
   spec_folder_name (str ''data:raw'') = str ''data'' \<and>
   spec_folder_name (str ''data:clean'') = str ''data'' \<and>
   spec_folder_name (str ''models'') \<noteq> str ''data'' \<and>
   map_of [(str ''data'', [str ''clean'']), (str ''logs'', []), (str ''models'', [])] (str ''data'')
     = Some (spec_sub_folders (str ''data:clean'')) \<and>
   spec_sub_folders (str ''data:raw'') = [str ''raw''] \<and>
   spec_sub_folders (str ''data:clean'') = [str ''clean''] \<and>
   (str ''data'', [str ''raw''])
     \<notin> set [(str ''data'', [str ''clean'']), (str ''logs'', []), (str ''models'', [])]"
proof -
  have p: "parse_folders_with_colon ([] @ [str ''data:raw''] @ [str ''logs''] @ [str ''data:clean''] @ [str ''models''])
     = Inr [(str ''data'', [str ''clean'']), (str ''logs'', []), (str ''models'', [])]"
    by (simp add: parse_folders_with_colon_def str_def colon_def comma_def str_strip_def
        is_space_def)
  have n1: "spec_folder_name (str ''data:raw'') = str ''data''"
    by (simp add: spec_folder_name_def str_def colon_def)
  have n2: "spec_folder_name (str ''data:clean'') = str ''data''"
    by (simp add: spec_folder_name_def str_def colon_def)
  have n3: "spec_folder_name (str ''models'') \<noteq> str ''data''"
    by (simp add: spec_folder_name_def str_def colon_def)
  then have post: "\<forall>t \<in> set [str ''models'']. spec_folder_name t \<noteq> str ''data''"
    by simp
  have s1: "spec_sub_folders (str ''data:raw'') = [str ''raw'']"
    by (simp add: spec_sub_folders_def str_def colon_def comma_def str_strip_def is_space_def)
  have s2: "spec_sub_folders (str ''data:clean'') = [str ''clean'']"
    by (simp add: spec_sub_folders_def str_def colon_def comma_def str_strip_def is_space_def)
  have ne: "spec_sub_folders (str ''data:raw'') \<noteq> spec_sub_folders (str ''data:clean'')"
    unfolding s1 s2 by (simp add: str_def)
  from parse_last_write_wins [OF p n1 n2 post] ne p n1 n2 n3 s1 s2
  show ?thesis by metis
qed
section \<open>The tree renderer: a root with one subdirectory and one file\<close>

text \<open>
  C2. At a project root that holds exactly the empty directory \<open>a\<close> and the regular file
  \<open>b.txt\<close>, in whichever order the system lists them, the code does not print what the
  statement says. \<open>print_project_structure\<close> prints its heading, the line \<open>root/\<close>, the
  line of \<open>a/\<close> with the connector of an entry that is not the last, and its closing rule:
  \<open>b.txt\<close> has no line, though it was counted as the last entry of the root. Called on
  that directory itself, as it is on every directory below the root,
  \<open>_print_directory_tree\<close> does print \<open>b.txt\<close> after \<open>a/\<close>, with the connector of the last
  entry. \<open>create_project\<close> comes to such a root when the directory it names exists already
  and holds a file.

  The lines are given code point by code point. The connectors of the source file are
  not the box-drawing characters U+251C, U+2514 and U+2500: they are the characters that
  the UTF-8 bytes of those give when read as Windows-1252, so that \<open>226, 8221, 339\<close> stands
  where U+251C was meant, \<open>226, 8221, 8221\<close> where U+2514 was, and \<open>226, 8221, 8364\<close> where
  U+2500 was.
\<close>

theorem root_file_not_listed:
  "print_project_structure (Dir [(str ''root'', Dir [(str ''a'', Dir []), (str ''b.txt'', File)])])
       (Path [slash] [str ''root''])
     = (None,
        [[10, 226, 339, 8230, 239, 184] @ str '' Created ML project successfully'',
         [10, 240, 376, 8220] @ str '' Project Structure:'',
         replicate 50 61,
         str ''root/'',
         [226, 8221, 339, 226, 8221, 8364, 226, 8221, 8364, 32] @ str ''a/'',
         replicate 50 61]) \<and>
   print_project_structure (Dir [(str ''root'', Dir [(str ''b.txt'', File), (str ''a'', Dir [])])])
       (Path [slash] [str ''root''])
     = print_project_structure
         (Dir [(str ''root'', Dir [(str ''a'', Dir []), (str ''b.txt'', File)])])
         (Path [slash] [str ''root'']) \<and>
   print_directory_tree (str ''root'', Dir [(str ''a'', Dir []), (str ''b.txt'', File)]) [] True
     = [[226, 8221, 8221, 226, 8221, 8364, 226, 8221, 8364, 32] @ str ''root/'',
        [32, 32, 32, 32] @ [226, 8221, 339, 226, 8221, 8364, 226, 8221, 8364, 32] @ str ''a/'',
        [32, 32, 32, 32] @ [226, 8221, 8221, 226, 8221, 8364, 226, 8221, 8364, 32]
          @ str ''b.txt''] \<and>
   create_project [(str ''a'', [])] example_cwd example_now (str ''x'')
       (Dir [(str ''home'', Dir [(str ''x_20240102_030405'', Dir [(str ''b.txt'', File)])])], [])
     = (Inr example_root,
        (Dir [(str ''home'',
               Dir [(str ''x_20240102_030405'', Dir [(str ''b.txt'', File), (str ''a'', Dir [])])])],
         [Line ([10, 226, 339, 8230, 239, 184] @ str '' Created ML project successfully''),
          Line ([10, 240, 376, 8220] @ str '' Project Structure:''),
          Line (replicate 50 61),
          Line (str ''x_20240102_030405/''),
          Line ([226, 8221, 339, 226, 8221, 8364, 226, 8221, 8364, 32] @ str ''a/''),
          Line (replicate 50 61)]))"
proof -
  have 1: "print_project_structure (Dir [(str ''root'', Dir [(str ''a'', Dir []), (str ''b.txt'', File)])])
       (Path [slash] [str ''root''])
     = (None,
        [[10, 226, 339, 8230, 239, 184] @ str '' Created ML project successfully'',
         [10, 240, 376, 8220] @ str '' Project Structure:'',
         replicate 50 61,
         str ''root/'',
         [226, 8221, 339, 226, 8221, 8364, 226, 8221, 8364, 32] @ str ''a/'',
         replicate 50 61])"
    by (simp add: print_project_structure_def print_directory_tree.simps iterdir_def has_nul_def
        is_dir_node_def is_file_node_def path_name_def enumerate_eq_zip banner_created_def
        banner_structure_def rule_line_def connector_mid_def connector_last_def
        str_def slash_def dotdot_def)
  have 2: "print_project_structure (Dir [(str ''root'', Dir [(str ''b.txt'', File), (str ''a'', Dir [])])])
       (Path [slash] [str ''root''])
     = print_project_structure
         (Dir [(str ''root'', Dir [(str ''a'', Dir []), (str ''b.txt'', File)])])
         (Path [slash] [str ''root''])"
    by (simp add: print_project_structure_def iterdir_def has_nul_def str_def dotdot_def)
  have 3: "print_directory_tree (str ''root'', Dir [(str ''a'', Dir []), (str ''b.txt'', File)]) [] True
     = [[226, 8221, 8221, 226, 8221, 8364, 226, 8221, 8364, 32] @ str ''root/'',
        [32, 32, 32, 32] @ [226, 8221, 339, 226, 8221, 8364, 226, 8221, 8364, 32] @ str ''a/'',
        [32, 32, 32, 32] @ [226, 8221, 8221, 226, 8221, 8364, 226, 8221, 8364, 32]
          @ str ''b.txt'']"
    by (simp add: print_directory_tree.simps is_dir_node_def is_file_node_def enumerate_eq_zip
        connector_mid_def connector_last_def prefix_blank_def prefix_bar_def str_def slash_def)
  have 4: "create_project [(str ''a'', [])] example_cwd example_now (str ''x'')
       (Dir [(str ''home'', Dir [(str ''x_20240102_030405'', Dir [(str ''b.txt'', File)])])], [])
     = (Inr example_root,
        (Dir [(str ''home'',
               Dir [(str ''x_20240102_030405'', Dir [(str ''b.txt'', File), (str ''a'', Dir [])])])],
         [Line ([10, 226, 339, 8230, 239, 184] @ str '' Created ML project successfully''),
          Line ([10, 240, 376, 8220] @ str '' Project Structure:''),
          Line (replicate 50 61),
          Line (str ''x_20240102_030405/''),
          Line ([226, 8221, 339, 226, 8221, 8364, 226, 8221, 8364, 32] @ str ''a/''),
          Line (replicate 50 61)]))"
    by (simp add: create_project_def Let_def handle_oserror_def strftime_def pad2_def dec.simps
        str_strip_def is_space_def print_project_structure_def print_directory_tree.simps
        example_cwd_def example_now_def example_root_def
        mkdir_def os_mkdir_def has_nul_def path_div_def parse_parts_def is_dir_def
        node_at_def is_dir_node_def is_file_node_def iterdir_def path_name_def enumerate_eq_zip
        banner_created_def banner_structure_def rule_line_def connector_mid_def connector_last_def
        str_def slash_def dot_def dotdot_def underscore_def split: prod.splits)
  from 1 2 3 4 show ?thesis
    by (intro conjI)
qed

text \<open>
  C10. The tree renderer prints nothing for a path that is not a directory. Therefore
  \<open>print_project_structure\<close> prints, between its heading and its closing rule, the trees of
  the subdirectories of the project root only: the other entries of the root give no line,
  while the position that marks the last sibling is counted over all the entries of the
  root.
\<close>

theorem root_files_not_printed:
  "(\<not> is_dir_node n \<longrightarrow> print_directory_tree (name, n) prefix is_last = []) \<and>
   (iterdir fs project_root = Inr es \<longrightarrow>
      print_project_structure fs project_root =
        (None,
         [banner_created, banner_structure, rule_line, path_name project_root @ [slash]]
         @ concat (map (\<lambda>(i, item). print_directory_tree item [] (int i = int (length es) - 1))
                     (filter (\<lambda>(i, item). is_dir_node (snd item))
                        (enumerate 0 (sort_key fst es))))
         @ [rule_line]))"
proof -
  have 1: "\<not> is_dir_node n \<longrightarrow> print_directory_tree (name, n) prefix is_last = []"
    by (simp add: print_not_dir)
  have 2: "iterdir fs project_root = Inr es \<longrightarrow>
      print_project_structure fs project_root =
        (None,
         [banner_created, banner_structure, rule_line, path_name project_root @ [slash]]
         @ concat (map (\<lambda>(i, item). print_directory_tree item [] (int i = int (length es) - 1))
                     (filter (\<lambda>(i, item). is_dir_node (snd item))
                        (enumerate 0 (sort_key fst es))))
         @ [rule_line])"
  proof
    assume it: "iterdir fs project_root = Inr es"
    have "concat (map (\<lambda>(i, item). print_directory_tree item [] (int i = int (length es) - 1))
                   (enumerate 0 (sort_key fst es)))
          = concat (map (\<lambda>(i, item). print_directory_tree item [] (int i = int (length es) - 1))
                   (filter (\<lambda>(i, item). is_dir_node (snd item)) (enumerate 0 (sort_key fst es))))"
    proof (rule concat_map_filter)
      fix x :: "nat \<times> entry"
      assume "\<not> (case x of (i, item) \<Rightarrow> is_dir_node (snd item))"
      then show "(case x of (i, item) \<Rightarrow>
                    print_directory_tree item [] (int i = int (length es) - 1)) = []"
        by (cases x, cases "snd x") (auto simp: print_not_dir)
    qed
    with it show "print_project_structure fs project_root =
        (None,
         [banner_created, banner_structure, rule_line, path_name project_root @ [slash]]
         @ concat (map (\<lambda>(i, item). print_directory_tree item [] (int i = int (length es) - 1))
                     (filter (\<lambda>(i, item). is_dir_node (snd item))
                        (enumerate 0 (sort_key fst es))))
         @ [rule_line])"
      by (simp add: print_project_structure_def Let_def)
  qed
  from 1 2 show ?thesis by blast
qed

text \<open>
  The theorem at a root that holds the file \<open>b.txt\<close> and the directory \<open>a\<close>: the file is
  not printed, and \<open>a/\<close>, the only line, is drawn as an entry that is not the last.
\<close>

theorem root_files_not_printed_witness:
  "\<not> is_dir_node File \<and>
   print_directory_tree (str ''b.txt'', File) [] True = [] \<and>
   iterdir (Dir [(str ''root'', Dir [(str ''b.txt'', File), (str ''a'', Dir [])])])
       (Path [slash] [str ''root''])
     = Inr [(str ''b.txt'', File), (str ''a'', Dir [])] \<and>
   print_project_structure (Dir [(str ''root'', Dir [(str ''b.txt'', File), (str ''a'', Dir [])])])
       (Path [slash] [str ''root''])
     = (None, [banner_created, banner_structure, rule_line, str ''root/'',
               connector_mid @ str ''a/'', rule_line])"
proof -
  have nd: "\<not> is_dir_node File"
    by (simp add: is_dir_node_def)
  have it: "iterdir (Dir [(str ''root'', Dir [(str ''b.txt'', File), (str ''a'', Dir [])])])
       (Path [slash] [str ''root''])
     = Inr [(str ''b.txt'', File), (str ''a'', Dir [])]"
    by (simp add: iterdir_def has_nul_def str_def dotdot_def)
  have sorted: "sort_key fst [(str ''b.txt'', File), (str ''a'', Dir [])]
                = [(str ''a'', Dir []), (str ''b.txt'', File)]"
    by (simp add: str_def)
  have a: "print_directory_tree (str ''a'', Dir []) [] False = [connector_mid @ str ''a/'']"
    by (simp add: print_directory_tree.simps str_def slash_def)
  from root_files_not_printed [of File "str ''b.txt''" "[]" True
      "Dir [(str ''root'', Dir [(str ''b.txt'', File), (str ''a'', Dir [])])]"
      "Path [slash] [str ''root'']" "[(str ''b.txt'', File), (str ''a'', Dir [])]"] nd it
  have "print_directory_tree (str ''b.txt'', File) [] True = []"
    and "print_project_structure (Dir [(str ''root'', Dir [(str ''b.txt'', File), (str ''a'', Dir [])])])
       (Path [slash] [str ''root''])
     = (None,
         [banner_created, banner_structure, rule_line, path_name (Path [slash] [str ''root'']) @ [slash]]
         @ concat (map (\<lambda>(i, item). print_directory_tree item []
                           (int i = int (length [(str ''b.txt'', File), (str ''a'', Dir [])]) - 1))
                     (filter (\<lambda>(i, item). is_dir_node (snd item))
                        (enumerate 0 (sort_key fst [(str ''b.txt'', File), (str ''a'', Dir [])]))))
         @ [rule_line])"
    by blast+
  then show ?thesis
    using nd it unfolding sorted
    by (simp add: a is_dir_node_def path_name_def enumerate_eq_zip)
       (simp add: str_def slash_def)
qed
section \<open>The project builder: the root path, errors and repeated creation\<close>

text \<open>
  C1 (as amended). Whenever \<open>create_project\<close> returns, the trimmed project name is
  non-empty, the path returned is the working directory joined with the project name as it
  was given (not trimmed), an underscore and the time stamp, and that path is a directory of
  the file system afterwards. The stamp of a clock time is \<open>YYYYMMDD_HHMMSS\<close>.
\<close>

theorem create_project_root:
  assumes "create_project s cwd now project_name st = (Inr p, st')"
  shows "str_strip project_name \<noteq> [] \<and>
         p = path_div cwd (project_name @ [underscore] @ strftime now) \<and>
         is_dir (fst st') p \<and>
         (clock_time now \<longrightarrow> strftime now = spec_stamp now)"
proof -
  note r = create_project_Inr [OF assms]
  have "p \<in> set (project_paths s cwd now project_name)"
    by (simp add: r(2) project_paths_def)
  with mkdir_all_dirs [OF r(3)] have "is_dir (fst st') p"
    by blast
  with r(1,2) strftime_spec_stamp show ?thesis
    by blast
qed

text \<open>The theorem at the project \<open>x\<close> of the example process.\<close>

theorem create_project_root_witness:
  "fst (create_project [(str ''data'', [str ''raw''])] example_cwd example_now (str ''x'')
          (example_fs, []))
     = Inr (Path [slash] [str ''home'', str ''x_20240102_030405'']) \<and>
   str_strip (str ''x'') \<noteq> [] \<and>
   Path [slash] [str ''home'', str ''x_20240102_030405'']
     = path_div example_cwd (str ''x'' @ [underscore] @ strftime example_now) \<and>
   is_dir (fst (snd (create_project [(str ''data'', [str ''raw''])] example_cwd example_now
                       (str ''x'') (example_fs, []))))
     (Path [slash] [str ''home'', str ''x_20240102_030405'']) \<and>
   clock_time example_now \<and>
   strftime example_now = spec_stamp example_now \<and>
   spec_stamp example_now = str ''20240102_030405''"
proof -
  have f: "fst (create_project [(str ''data'', [str ''raw''])] example_cwd example_now (str ''x'')
          (example_fs, []))
     = Inr (Path [slash] [str ''home'', str ''x_20240102_030405''])"
    by (simp add: create_project_def Let_def handle_oserror_def strftime_def pad2_def dec.simps
        str_strip_def is_space_def print_project_structure_def
        example_fs_def example_cwd_def example_now_def
        mkdir_def os_mkdir_def has_nul_def path_div_def parse_parts_def is_dir_def
        node_at_def is_dir_node_def iterdir_def
        str_def slash_def dot_def dotdot_def underscore_def split: prod.splits)
  then have run: "create_project [(str ''data'', [str ''raw''])] example_cwd example_now (str ''x'')
          (example_fs, [])
     = (Inr (Path [slash] [str ''home'', str ''x_20240102_030405'']),
        snd (create_project [(str ''data'', [str ''raw''])] example_cwd example_now (str ''x'')
          (example_fs, [])))"
    by (metis prod.collapse)
  have ct: "clock_time example_now"
    by (simp add: clock_time_def example_now_def)
  have stamp: "spec_stamp example_now = str ''20240102_030405''"
    by (simp add: spec_stamp_def digits4_def digits2_def example_now_def str_def underscore_def)
  from create_project_root [OF run] f ct stamp
  show ?thesis
    by blast
qed

text \<open>
  The name is not trimmed in the path: for the name \<open>" x"\<close> the root is \<open>/home/ x_...\<close>,
  which is not the working directory joined with the trimmed name and the stamp.
\<close>

theorem create_project_keeps_spaces:
  "fst (create_project [] example_cwd example_now (str '' x'') (example_fs, []))
     = Inr (Path [slash] [str ''home'', str '' x_20240102_030405'']) \<and>
   path_div example_cwd (str_strip (str '' x'') @ [underscore] @ strftime example_now)
     = Path [slash] [str ''home'', str ''x_20240102_030405''] \<and>
   Path [slash] [str ''home'', str '' x_20240102_030405'']
     \<noteq> Path [slash] [str ''home'', str ''x_20240102_030405'']"
  by (simp add: create_project_def Let_def handle_oserror_def strftime_def pad2_def dec.simps
      str_strip_def is_space_def print_project_structure_def
      example_fs_def example_cwd_def example_now_def
      mkdir_def os_mkdir_def has_nul_def path_div_def parse_parts_def is_dir_def
      node_at_def is_dir_node_def iterdir_def
      str_def slash_def dot_def dotdot_def underscore_def split: prod.splits)




text \<open>
  C8. When \<open>create_project\<close> has returned, calling it again with the same name at the same
  clock time returns the same root and leaves the file system as it is: every directory of
  the project, the root, each folder and each subfolder, exists by then, and \<open>mkdir\<close> of an
  existing directory succeeds and changes nothing.
\<close>

theorem create_project_twice:
  assumes "create_project s cwd now project_name st = (Inr p, st')"
  shows "fst (create_project s cwd now project_name st') = Inr p \<and>
         fst (snd (create_project s cwd now project_name st')) = fst st' \<and>
         list_all (\<lambda>q. is_dir (fst st') q \<and> mkdir (fst st') q = Inr (fst st'))
           (project_paths s cwd now project_name)"
proof -
  note r = create_project_Inr [OF assms]
  from mkdir_all_dirs [OF r(3)]
  have dirs: "\<forall>q \<in> set (project_paths s cwd now project_name). is_dir (fst st') q"
    by blast
  then have "mkdir_all (project_paths s cwd now project_name) (fst st') = Some (fst st')"
    by (rule mkdir_all_existing)
  then have seq: "mkdir_seq (project_paths s cwd now project_name) (fst st') = (None, fst st')"
    by (simp add: mkdir_seq_None)
  have 1: "fst (create_project s cwd now project_name st') = Inr p"
    and 2: "fst (snd (create_project s cwd now project_name st')) = fst st'"
    by (simp_all add: create_project_seq [OF r(1)] seq r(2))
  have 3: "list_all (\<lambda>q. is_dir (fst st') q \<and> mkdir (fst st') q = Inr (fst st'))
             (project_paths s cwd now project_name)"
    using dirs by (auto simp: list_all_iff mkdir_existing)
  from 1 2 3 show ?thesis by blast
qed

text \<open>
  The theorem at the project \<open>x\<close> of the example process, built twice.
\<close>

theorem create_project_twice_witness:
  "create_project [(str ''data'', [str ''raw''])] example_cwd example_now (str ''x'') (example_fs, [])
     = (Inr example_root,
        (example_built,
         [Line banner_created, Line banner_structure, Line rule_line,
          Line (str ''x_20240102_030405/''),
          Line (connector_last @ str ''data/''),
          Line (prefix_blank @ connector_last @ str ''raw/''),
          Line rule_line])) \<and>
   fst (create_project [(str ''data'', [str ''raw''])] example_cwd example_now (str ''x'')
          (example_built,
           [Line banner_created, Line banner_structure, Line rule_line,
            Line (str ''x_20240102_030405/''),
            Line (connector_last @ str ''data/''),
            Line (prefix_blank @ connector_last @ str ''raw/''),
            Line rule_line]))
     = Inr example_root \<and>
   fst (snd (create_project [(str ''data'', [str ''raw''])] example_cwd example_now (str ''x'')
          (example_built,
           [Line banner_created, Line banner_structure, Line rule_line,
            Line (str ''x_20240102_030405/''),
            Line (connector_last @ str ''data/''),
            Line (prefix_blank @ connector_last @ str ''raw/''),
            Line rule_line])))
     = example_built \<and>
   mkdir example_built example_root = Inr example_built"
proof -
  have run: "create_project [(str ''data'', [str ''raw''])] example_cwd example_now (str ''x'')
      (example_fs, [])
     = (Inr example_root,
        (example_built,
         [Line banner_created, Line banner_structure, Line rule_line,
          Line (str ''x_20240102_030405/''),
          Line (connector_last @ str ''data/''),
          Line (prefix_blank @ connector_last @ str ''raw/''),
          Line rule_line]))"
    by (simp add: create_project_def Let_def handle_oserror_def strftime_def pad2_def dec.simps
        str_strip_def is_space_def print_project_structure_def print_directory_tree.simps
        example_fs_def example_cwd_def example_now_def example_root_def example_built_def
        mkdir_def os_mkdir_def has_nul_def path_div_def parse_parts_def is_dir_def
        node_at_def is_dir_node_def is_file_node_def iterdir_def path_name_def enumerate_eq_zip
        str_def slash_def dot_def dotdot_def underscore_def split: prod.splits)
  have paths: "project_paths [(str ''data'', [str ''raw''])] example_cwd example_now (str ''x'')
               = example_root # tl (project_paths [(str ''data'', [str ''raw''])] example_cwd
                                      example_now (str ''x''))"
    by (simp add: project_paths_def example_root_def example_cwd_def example_now_def
        strftime_def pad2_def dec.simps path_div_def parse_parts_def
        str_def slash_def dot_def underscore_def)
  from create_project_twice [OF run] show ?thesis
    using run by (subst (asm) paths) simp
qed

text \<open>
  C9 (as amended). On every system, for a name that is not blank:
  \<^item> when \<open>Path.cwd()\<close> raises, that exception is raised with the state as it was, and
    \<open>create_project\<close> prints no line for it, the call being made before the \<open>try\<close> block;
  \<^item> when a \<open>mkdir\<close> raises an \<open>OSError\<close> after the calls before it have succeeded,
    \<open>create_project\<close> stops at once, with the system in the state those calls have made:
    no later directory is asked for and nothing is undone;
  \<^item> when every directory is made and the printing of the structure raises an \<open>OSError\<close>,
    the system is in the state the \<open>mkdir\<close> calls have made and the lines printed so far
    stay printed.

  In the last two cases the handler prints its line for the error and the same error is
  raised, provided that \<open>print\<close> succeeds; when it raises, its exception is the one raised
  and no line is added.
\<close>

theorem create_project_on_oserror:
  "(str_strip project_name \<noteq> [] \<and> sys_cwd sys (fst st) = Inl e \<longrightarrow>
      create_project_on sys s now project_name st = (Inl e, st)) \<and>
   (str_strip project_name \<noteq> [] \<and> sys_cwd sys (fst st) = Inr cwd \<and>
    project_paths s cwd now project_name = done @ failing # rest \<and>
    mkdir_all_on sys done (fst st) = Some fs' \<and>
    sys_mkdir sys fs' failing = Inl (OSError k) \<longrightarrow>
      create_project_on sys s now project_name st =
        (case sys_report sys fs' (OSError k) of
           None \<Rightarrow> (Inl (OSError k), (fs', snd st @ [ErrorLine (OSError k)]))
         | Some e' \<Rightarrow> (Inl e', (fs', snd st)))) \<and>
   (str_strip project_name \<noteq> [] \<and> sys_cwd sys (fst st) = Inr cwd \<and>
    mkdir_all_on sys (project_paths s cwd now project_name) (fst st) = Some fs' \<and>
    sys_show sys fs' (path_div cwd (project_name @ [underscore] @ strftime now))
      = (Some (OSError k), shown) \<longrightarrow>
      create_project_on sys s now project_name st =
        (case sys_report sys fs' (OSError k) of
           None \<Rightarrow>
             (Inl (OSError k), (fs', snd st @ map Line shown @ [ErrorLine (OSError k)]))
         | Some e' \<Rightarrow> (Inl e', (fs', snd st @ map Line shown))))"
proof -
  have 1: "str_strip project_name \<noteq> [] \<and> sys_cwd sys (fst st) = Inl e \<longrightarrow>
      create_project_on sys s now project_name st = (Inl e, st)"
    by (simp add: create_project_on_no_cwd)
  have 2: "str_strip project_name \<noteq> [] \<and> sys_cwd sys (fst st) = Inr cwd \<and>
    project_paths s cwd now project_name = done @ failing # rest \<and>
    mkdir_all_on sys done (fst st) = Some fs' \<and>
    sys_mkdir sys fs' failing = Inl (OSError k) \<longrightarrow>
      create_project_on sys s now project_name st =
        (case sys_report sys fs' (OSError k) of
           None \<Rightarrow> (Inl (OSError k), (fs', snd st @ [ErrorLine (OSError k)]))
         | Some e' \<Rightarrow> (Inl e', (fs', snd st)))"
  proof
    assume a: "str_strip project_name \<noteq> [] \<and> sys_cwd sys (fst st) = Inr cwd \<and>
      project_paths s cwd now project_name = done @ failing # rest \<and>
      mkdir_all_on sys done (fst st) = Some fs' \<and>
      sys_mkdir sys fs' failing = Inl (OSError k)"
    then have ne: "str_strip project_name \<noteq> []" and c: "sys_cwd sys (fst st) = Inr cwd"
      by simp_all
    from a have "mkdir_seq_on sys (project_paths s cwd now project_name) (fst st)
                 = (Some (OSError k), fs')"
      by (intro mkdir_seq_on_failing [of _ "done" failing rest]) simp_all
    then show "create_project_on sys s now project_name st =
        (case sys_report sys fs' (OSError k) of
           None \<Rightarrow> (Inl (OSError k), (fs', snd st @ [ErrorLine (OSError k)]))
         | Some e' \<Rightarrow> (Inl e', (fs', snd st)))"
      by (simp add: create_project_on_seq [OF ne c] handle_oserror_on_OSError split: option.splits)
  qed
  have 3: "str_strip project_name \<noteq> [] \<and> sys_cwd sys (fst st) = Inr cwd \<and>
    mkdir_all_on sys (project_paths s cwd now project_name) (fst st) = Some fs' \<and>
    sys_show sys fs' (path_div cwd (project_name @ [underscore] @ strftime now))
      = (Some (OSError k), shown) \<longrightarrow>
      create_project_on sys s now project_name st =
        (case sys_report sys fs' (OSError k) of
           None \<Rightarrow>
             (Inl (OSError k), (fs', snd st @ map Line shown @ [ErrorLine (OSError k)]))
         | Some e' \<Rightarrow> (Inl e', (fs', snd st @ map Line shown)))"
  proof
    assume a: "str_strip project_name \<noteq> [] \<and> sys_cwd sys (fst st) = Inr cwd \<and>
      mkdir_all_on sys (project_paths s cwd now project_name) (fst st) = Some fs' \<and>
      sys_show sys fs' (path_div cwd (project_name @ [underscore] @ strftime now))
        = (Some (OSError k), shown)"
    then have ne: "str_strip project_name \<noteq> []" and c: "sys_cwd sys (fst st) = Inr cwd"
      and sh: "sys_show sys fs' (path_div cwd (project_name @ [underscore] @ strftime now))
        = (Some (OSError k), shown)"
      by simp_all
    from a have seq: "mkdir_seq_on sys (project_paths s cwd now project_name) (fst st) = (None, fs')"
      by (simp add: mkdir_seq_on_None)
    show "create_project_on sys s now project_name st =
        (case sys_report sys fs' (OSError k) of
           None \<Rightarrow>
             (Inl (OSError k), (fs', snd st @ map Line shown @ [ErrorLine (OSError k)]))
         | Some e' \<Rightarrow> (Inl e', (fs', snd st @ map Line shown)))"
      unfolding create_project_on_seq [OF ne c] seq sh prod.case option.case
        handle_oserror_on_OSError
      by (simp split: option.splits)
  qed
  from 1 2 3 show ?thesis by (intro conjI)
qed

text \<open>
  The theorem at three runs of the project \<open>x\<close> in the example process: with the working
  directory removed; on the tree with the structure \<open>{"data": [], "a/b": []}\<close>, where the
  root and \<open>data\<close> are made, \<open>a/b\<close> fails since there is no \<open>a\<close>, and \<open>data\<close> stays; and
  with the structure \<open>{"data": ["raw"]}\<close> where the directories cannot be listed.
\<close>

theorem create_project_on_oserror_witness:
  "str_strip (str ''x'') \<noteq> [] \<and>
   sys_cwd removed_cwd_system example_fs = Inl (OSError FileNotFoundError) \<and>
   create_project_on removed_cwd_system default_structure example_now (str ''x'') (example_fs, [])
     = (Inl (OSError FileNotFoundError), (example_fs, [])) \<and>
   sys_cwd (tree_system example_cwd) example_fs = Inr example_cwd \<and>
   project_paths [(str ''data'', []), (str ''a/b'', [])] example_cwd example_now (str ''x'')
     = [example_root, path_div example_root (str ''data'')]
       @ path_div example_root (str ''a/b'') # [] \<and>
   mkdir_all_on (tree_system example_cwd) [example_root, path_div example_root (str ''data'')]
       example_fs
     = Some (Dir [(str ''home'', Dir [(str ''x_20240102_030405'', Dir [(str ''data'', Dir [])])])]) \<and>
   sys_mkdir (tree_system example_cwd)
       (Dir [(str ''home'', Dir [(str ''x_20240102_030405'', Dir [(str ''data'', Dir [])])])])
       (path_div example_root (str ''a/b''))
     = Inl (OSError FileNotFoundError) \<and>
   create_project_on (tree_system example_cwd) [(str ''data'', []), (str ''a/b'', [])] example_now
       (str ''x'') (example_fs, [])
     = (Inl (OSError FileNotFoundError),
        (Dir [(str ''home'', Dir [(str ''x_20240102_030405'', Dir [(str ''data'', Dir [])])])],
         [ErrorLine (OSError FileNotFoundError)])) \<and>
   is_dir (Dir [(str ''home'', Dir [(str ''x_20240102_030405'', Dir [(str ''data'', Dir [])])])])
     (path_div example_root (str ''data'')) \<and>
   sys_cwd (unlistable_system example_cwd) example_fs = Inr example_cwd \<and>
   mkdir_all_on (unlistable_system example_cwd)
       (project_paths [(str ''data'', [str ''raw''])] example_cwd example_now (str ''x''))
       example_fs
     = Some example_built \<and>
   sys_show (unlistable_system example_cwd) example_built
       (path_div example_cwd (str ''x'' @ [underscore] @ strftime example_now))
     = (Some (OSError PermissionError),
        [banner_created, banner_structure, rule_line, str ''x_20240102_030405/'']) \<and>
   create_project_on (unlistable_system example_cwd) [(str ''data'', [str ''raw''])] example_now
       (str ''x'') (example_fs, [])
     = (Inl (OSError PermissionError),
        (example_built,
         [Line banner_created, Line banner_structure, Line rule_line,
          Line (str ''x_20240102_030405/''), ErrorLine (OSError PermissionError)]))"
proof -
  define fs2 where
    "fs2 = Dir [(str ''home'', Dir [(str ''x_20240102_030405'', Dir [(str ''data'', Dir [])])])]"
  have 1: "str_strip (str ''x'') \<noteq> []"
    by (simp add: str_strip_def is_space_def str_def)
  have c0: "sys_cwd removed_cwd_system (fst (example_fs, [] :: printed list))
            = Inl (OSError FileNotFoundError)"
    by (simp add: removed_cwd_system_def)
  have c1: "sys_cwd (tree_system example_cwd) (fst (example_fs, [] :: printed list)) = Inr example_cwd"
    by (simp add: tree_system_def)
  have c2: "sys_cwd (unlistable_system example_cwd) (fst (example_fs, [] :: printed list))
            = Inr example_cwd"
    by (simp add: unlistable_system_def)
  have 2: "project_paths [(str ''data'', []), (str ''a/b'', [])] example_cwd example_now (str ''x'')
     = [example_root, path_div example_root (str ''data'')]
       @ path_div example_root (str ''a/b'') # []"
    by (simp add: project_paths_def folder_paths_def example_root_def example_cwd_def
        example_now_def strftime_def pad2_def dec.simps path_div_def parse_parts_def
        str_def slash_def dot_def underscore_def)
  have 3: "mkdir_all_on (tree_system example_cwd)
             [example_root, path_div example_root (str ''data'')]
             (fst (example_fs, [] :: printed list)) = Some fs2"
    by (simp add: tree_system_def fs2_def example_root_def example_fs_def
        mkdir_def os_mkdir_def has_nul_def path_div_def parse_parts_def is_dir_def
        node_at_def is_dir_node_def str_def slash_def dot_def dotdot_def)
  have 4: "sys_mkdir (tree_system example_cwd) fs2 (path_div example_root (str ''a/b''))
           = Inl (OSError FileNotFoundError)"
    by (simp add: tree_system_def fs2_def example_root_def
        mkdir_def os_mkdir_def has_nul_def path_div_def parse_parts_def is_dir_def
        node_at_def is_dir_node_def str_def slash_def dot_def dotdot_def)
  have r: "sys_report (tree_system example_cwd) fs2 (OSError FileNotFoundError) = None"
    by (simp add: tree_system_def)
  have 5: "is_dir fs2 (path_div example_root (str ''data''))"
    by (simp add: fs2_def example_root_def path_div_def parse_parts_def is_dir_def has_nul_def
        node_at_def is_dir_node_def str_def slash_def dot_def dotdot_def)
  have 6: "mkdir_all_on (unlistable_system example_cwd)
       (project_paths [(str ''data'', [str ''raw''])] example_cwd example_now (str ''x''))
       (fst (example_fs, [] :: printed list))
     = Some example_built"
    by (simp add: unlistable_system_def project_paths_def folder_paths_def example_built_def
        example_cwd_def example_fs_def example_now_def strftime_def pad2_def dec.simps
        mkdir_def os_mkdir_def has_nul_def path_div_def parse_parts_def is_dir_def
        node_at_def is_dir_node_def str_def slash_def dot_def dotdot_def underscore_def)
  have 7: "sys_show (unlistable_system example_cwd) example_built
       (path_div example_cwd (str ''x'' @ [underscore] @ strftime example_now))
     = (Some (OSError PermissionError),
        [banner_created, banner_structure, rule_line, str ''x_20240102_030405/''])"
    by (simp add: unlistable_system_def example_cwd_def example_now_def strftime_def pad2_def
        dec.simps path_div_def parse_parts_def path_name_def
        str_def slash_def dot_def underscore_def)
  have r2: "sys_report (unlistable_system example_cwd) example_built (OSError PermissionError) = None"
    by (simp add: unlistable_system_def)
  note t0 = create_project_on_oserror [of "str ''x''" removed_cwd_system
      "(example_fs, [])" "OSError FileNotFoundError" default_structure example_now]
  from t0 1 c0
  have run0: "create_project_on removed_cwd_system default_structure example_now (str ''x'')
                (example_fs, [])
              = (Inl (OSError FileNotFoundError), (example_fs, []))"
    by blast
  note t1 = create_project_on_oserror [of "str ''x''" "tree_system example_cwd"
      "(example_fs, [])" _ "[(str ''data'', []), (str ''a/b'', [])]" example_now example_cwd
      "[example_root, path_div example_root (str ''data'')]"
      "path_div example_root (str ''a/b'')" "[]" fs2 FileNotFoundError]
  from t1 1 c1 2 3 4
  have run1: "create_project_on (tree_system example_cwd) [(str ''data'', []), (str ''a/b'', [])]
       example_now (str ''x'') (example_fs, [])
     = (Inl (OSError FileNotFoundError), (fs2, [ErrorLine (OSError FileNotFoundError)]))"
    by (simp add: r)
  note t2 = create_project_on_oserror [of "str ''x''" "unlistable_system example_cwd"
      "(example_fs, [])" _ "[(str ''data'', [str ''raw''])]" example_now example_cwd
      _ _ _ example_built PermissionError
      "[banner_created, banner_structure, rule_line, str ''x_20240102_030405/'']"]
  from t2 1 c2 6 7
  have run2: "create_project_on (unlistable_system example_cwd) [(str ''data'', [str ''raw''])]
       example_now (str ''x'') (example_fs, [])
     = (Inl (OSError PermissionError),
        (example_built,
         [Line banner_created, Line banner_structure, Line rule_line,
          Line (str ''x_20240102_030405/''), ErrorLine (OSError PermissionError)]))"
    by (simp add: r2)
  from 1 c0 run0 c1 2 3 4 run1 5 c2 6 7 run2 show ?thesis
    unfolding fs2_def fst_conv by (intro conjI)
qed

text \<open>
  Two runs where an \<open>OSError\<close> is not both reported and raised again. With the working
  directory removed, \<open>FileNotFoundError\<close> is raised and no line is printed for it. With the
  standard output closed and the structure \<open>{"data": [], "a/b": []}\<close>, the \<open>mkdir\<close> of \<open>a/b\<close>
  raises \<open>FileNotFoundError\<close>, the \<open>print\<close> of the handler raises \<open>ValueError\<close>, and
  \<open>ValueError\<close> is what the caller gets; \<open>data\<close> stays.
\<close>

theorem create_project_no_report:
  "create_project_on removed_cwd_system default_structure example_now (str ''x'') (example_fs, [])
     = (Inl (OSError FileNotFoundError), (example_fs, [])) \<and>
   mkdir (Dir [(str ''home'', Dir [(str ''x_20240102_030405'', Dir [(str ''data'', Dir [])])])])
       (path_div example_root (str ''a/b''))
     = Inl (OSError FileNotFoundError) \<and>
   create_project_on (closed_stdout_system example_cwd) [(str ''data'', []), (str ''a/b'', [])]
       example_now (str ''x'') (example_fs, [])
     = (Inl ValueError,
        (Dir [(str ''home'', Dir [(str ''x_20240102_030405'', Dir [(str ''data'', Dir [])])])],
         []))"
  by (simp add: create_project_on_def Let_def handle_oserror_on_def
      removed_cwd_system_def closed_stdout_system_def
      strftime_def pad2_def dec.simps str_strip_def is_space_def
      example_fs_def example_cwd_def example_now_def example_root_def
      mkdir_def os_mkdir_def has_nul_def path_div_def parse_parts_def is_dir_def
      node_at_def is_dir_node_def
      str_def slash_def dot_def dotdot_def underscore_def split: prod.splits)


end
